theory Spec2Isabelle
  imports Main "HOL-Library.Sublist" "HOL-Library.AList"
begin

section \<open>roslaunch-to-dot: a shallow embedding of the launch-file resolver\<close>

text \<open>
  The program reads a ROS launch file (XML), expands the substitution arguments
  \<open>$(keyword argument)\<close> in attribute text, follows \<open>include\<close> elements into
  other launch files and prints the resulting tree as a dot graph. The embedding
  follows \<^verbatim>\<open>roslaunch-to-dot.py\<close> function by function. Python strings are
  \<open>string\<close>; exceptions are values of \<open>error\<close>; the module-level set
  \<open>VISITED_LAUNCH_FILES\<close> and the random generator are an explicit \<open>world\<close>
  that every function takes and returns; what the program reads from outside
  (the file system, \<open>rospack\<close>, the environment, \<open>randint\<close>) is a \<open>platform\<close>.
\<close>

subsection \<open>String operations of the Python runtime\<close>

text \<open>\<open>sep.join(xs)\<close>.\<close>

fun join :: "string \<Rightarrow> string list \<Rightarrow> string" where
  "join sep [] = []"
| "join sep [x] = x"
| "join sep (x # y # ys) = x @ sep @ join sep (y # ys)"

text \<open>
  \<open>text.replace(old, new)\<close>: every non-overlapping occurrence of \<open>old\<close>, found from
  left to right, is replaced. With an empty \<open>old\<close> Python puts \<open>new\<close> before every
  character and at the end.
\<close>

function replace :: "string \<Rightarrow> string \<Rightarrow> string \<Rightarrow> string" where
  "replace text [] new = new @ concat (map (\<lambda>c. c # new) text)"
| "replace [] (v # va) new = []"
| "replace (c # cs) (v # va) new =
     (if prefix (v # va) (c # cs)
      then new @ replace (drop (length (v # va)) (c # cs)) (v # va) new
      else c # replace cs (v # va) new)"
  by pat_completeness auto
termination
  by (relation "measure (\<lambda>(text, old, new). length text)") auto

text \<open>
  \<open>text.split(sep)\<close> for a non-empty separator: the pieces between the
  non-overlapping occurrences of \<open>sep\<close>, found from left to right. (Python raises
  ValueError for an empty separator; the program only splits on \<open>" "\<close> and on
  \<open>"/launch/"\<close>, and the model returns the text as one piece there.)
\<close>

function split :: "string \<Rightarrow> string \<Rightarrow> string list" where
  "split text [] = [text]"
| "split [] (v # va) = [Nil]"
| "split (c # cs) (v # va) =
     (if prefix (v # va) (c # cs)
      then [] # split (drop (length (v # va)) (c # cs)) (v # va)
      else (case split cs (v # va) of
              [] \<Rightarrow> [c] # Nil
            | p # ps \<Rightarrow> (c # p) # ps))"
  by pat_completeness auto
termination
  by (relation "measure (\<lambda>(text, sep). length text)") auto

text \<open>\<open>needle in text\<close> for strings.\<close>

fun contains :: "string \<Rightarrow> string \<Rightarrow> bool" where
  "contains [] needle = (needle = [])"
| "contains (c # cs) needle = (prefix needle (c # cs) \<or> contains cs needle)"

text \<open>\<open>text.lower()\<close> of a byte string: the letters A to Z become a to z.\<close>

definition lower_char :: "char \<Rightarrow> char" where
  "lower_char c =
     (case map_of (zip ''ABCDEFGHIJKLMNOPQRSTUVWXYZ'' ''abcdefghijklmnopqrstuvwxyz'') c of
        None \<Rightarrow> c
      | Some d \<Rightarrow> d)"

definition lower :: "string \<Rightarrow> string" where
  "lower text = map lower_char text"

text \<open>\<open>str(n)\<close> for a non-negative integer.\<close>

definition digit :: "nat \<Rightarrow> char" where
  "digit d = ''0123456789'' ! (d mod 10)"

fun str_nat :: "nat \<Rightarrow> string" where
  "str_nat n = (if n < 10 then [digit n] else str_nat (n div 10) @ [digit (n mod 10)])"

declare str_nat.simps [simp del]

subsection \<open>The pattern of a substitution argument\<close>

text \<open>
  \<open>__resolveText\<close> compiles \<^verbatim>\<open>\$\(([a-zA-Z_]+) ([a-zA-Z0-9_]+)\)\<close>. Neither
  character class contains the character that must follow it (a space, a closing
  parenthesis), so a match at a position takes the whole run of class characters:
  \<open>takeWhile\<close>. \<open>search\<close> is \<open>pattern.search(text)\<close>: the leftmost match, as
  \<open>(group(), group(1), group(2))\<close>.
\<close>

definition kwchar :: "char \<Rightarrow> bool" where
  "kwchar c = (c \<in> set ''abcdefghijklmnopqrstuvwxyzABCDEFGHIJKLMNOPQRSTUVWXYZ_'')"

definition argchar :: "char \<Rightarrow> bool" where
  "argchar c = (c \<in> set ''abcdefghijklmnopqrstuvwxyzABCDEFGHIJKLMNOPQRSTUVWXYZ0123456789_'')"

definition match_here :: "string \<Rightarrow> (string \<times> string \<times> string) option" where
  "match_here s =
     (case s of
        c1 # c2 # r \<Rightarrow>
          if c1 = CHR ''$'' \<and> c2 = CHR ''('' \<and> takeWhile kwchar r \<noteq> [] then
            (case dropWhile kwchar r of
               c3 # r2 \<Rightarrow>
                 if c3 = CHR '' '' \<and> takeWhile argchar r2 \<noteq> [] then
                   (case dropWhile argchar r2 of
                      c4 # r3 \<Rightarrow>
                        if c4 = CHR '')'' then
                          Some (''$('' @ takeWhile kwchar r @ '' '' @ takeWhile argchar r2 @ '')'',
                                takeWhile kwchar r, takeWhile argchar r2)
                        else None
                    | [] \<Rightarrow> None)
                 else None
             | [] \<Rightarrow> None)
          else None
      | _ \<Rightarrow> None)"

fun search :: "string \<Rightarrow> (string \<times> string \<times> string) option" where
  "search [] = None"
| "search (c # cs) =
     (case match_here (c # cs) of
        Some m \<Rightarrow> Some m
      | None \<Rightarrow> search cs)"

subsection \<open>Errors, the platform and the world\<close>

text \<open>
  The program raises \<open>Exception(message)\<close> everywhere; two statements of
  \<open>__onEnvSubstitutionArg\<close> read names that are bound nowhere and raise NameError,
  an unpacking assignment can raise ValueError, and \<open>ET.parse\<close> raises on a file
  that is not well-formed XML.
\<close>

datatype error =
    Exception string
  | NameError string
  | ValueError string
  | ParseError string

text \<open>
  A parsed XML element: \<open>tag\<close>, \<open>attrib\<close> and the child elements. Dictionaries
  whose order is never read (\<open>attrib\<close>, \<open>self.__args\<close>) are association lists
  read with \<open>map_of\<close> and written with \<open>AList.update\<close>.
\<close>

datatype element = Element (tag: string) (attrib: "(string \<times> string) list") (children: "element list")

text \<open>What a path holds: nothing, something \<open>ET.parse\<close> rejects, or a document.\<close>

datatype content = Missing | Malformed | Document element

text \<open>
  \<open>files\<close> is the file system, \<open>rospack\<close> the output of the command
  \<open>rospack find <package>\<close>, \<open>environ\<close> the environment, and \<open>randint\<close> the
  sequence of values that successive calls \<open>randint(0, 999)\<close> return.
\<close>

record platform =
  files :: "string \<Rightarrow> content"
  rospack :: "string \<Rightarrow> string"
  environ :: "string \<rightharpoonup> string"
  randint :: "nat \<Rightarrow> nat"

text \<open>
  \<open>visited\<close> is \<open>VISITED_LAUNCH_FILES\<close>; \<open>draws\<close> counts the calls of
  \<open>randint\<close> made so far.
\<close>

record world =
  visited :: "string set"
  draws :: nat

subsection \<open>The handlers of the substitution arguments\<close>

type_synonym handler = "string \<Rightarrow> world \<Rightarrow> (error + string) \<times> world"

definition onAnonSubstitutionArg :: "platform \<Rightarrow> handler" where
  "onAnonSubstitutionArg P name w =
     (Inr (name @ ''-'' @ str_nat (randint P (draws w) mod 1000)),
      w\<lparr>draws := Suc (draws w)\<rparr>)"

definition onArgSubstitutionArg :: "(string \<times> string) list \<Rightarrow> handler" where
  "onArgSubstitutionArg args arg w =
     (case map_of args arg of
        None \<Rightarrow> (Inl (Exception (''Could not resolve unknown arg: '' @ [CHR 0x27] @ arg @ [CHR 0x27])), w)
      | Some v \<Rightarrow> (Inr v, w))"

text \<open>
  \<open>__onEnvSubstitutionArg\<close> splits its argument at spaces. With one part it tests
  \<open>arg not in environ\<close>: \<open>arg\<close> is not a local of the method, not a global of the
  module and not a builtin, so evaluating it raises NameError before the
  environment is read. With two parts it calls
  \<open>environ.get(env, defaultValue)\<close>: \<open>defaultValue\<close> is bound nowhere either.
  With more parts the assignment \<open>env, default = parts\<close> raises ValueError.
\<close>

definition onEnvSubstitutionArg :: "platform \<Rightarrow> handler" where
  "onEnvSubstitutionArg P env w =
     (let parts = split env '' '' in
      if length parts = 1 then (Inl (NameError ''arg''), w)
      else if length parts = 2 then (Inl (NameError ''defaultValue''), w)
      else (Inl (ValueError ''too many values to unpack''), w))"

definition onFindSubstitutionArg :: "platform \<Rightarrow> handler" where
  "onFindSubstitutionArg P package w =
     (let output = rospack P package in
      if contains output ''Error:'' then (Inl (Exception output), w)
      else (Inr output, w))"

text \<open>\<open>self.__substitutionArgFnMap.get(subArg, None)\<close>.\<close>

definition substitutionArgFnMap :: "platform \<Rightarrow> (string \<times> string) list \<Rightarrow> string \<Rightarrow> handler option" where
  "substitutionArgFnMap P args subArg =
     (if subArg = ''find'' then Some (onFindSubstitutionArg P)
      else if subArg = ''arg'' then Some (onArgSubstitutionArg args)
      else if subArg = ''env'' then Some (onEnvSubstitutionArg P)
      else if subArg = ''optenv'' then Some (onEnvSubstitutionArg P)
      else if subArg = ''anon'' then Some (onAnonSubstitutionArg P)
      else None)"

subsection \<open>\<open>__resolveText\<close>\<close>

text \<open>
  The loop of \<open>__resolveText\<close> runs until the pattern matches nowhere; nothing
  bounds it (the output of \<open>rospack\<close> may contain the expression it replaces), so
  the function is partial: \<open>None\<close> is a loop that never ends.
\<close>

partial_function (option) resolveText ::
  "platform \<Rightarrow> (string \<times> string) list \<Rightarrow> string \<Rightarrow> world \<Rightarrow> ((error + string) \<times> world) option"
where
  "resolveText P args text w =
     (case search text of
        None \<Rightarrow> Some (Inr text, w)
      | Some m \<Rightarrow>
          (case substitutionArgFnMap P args (fst (snd m)) of
             None \<Rightarrow>
               Some (Inl (Exception (''Include has unknown substitution argument '' @ fst (snd m))), w)
           | Some substitutionFn \<Rightarrow>
               (case substitutionFn (snd (snd m)) w of
                  (Inl e, w') \<Rightarrow> Some (Inl e, w')
                | (Inr resolved, w') \<Rightarrow> resolveText P args (replace text (fst m) resolved) w')))"

declare resolveText.simps [code]


subsection \<open>The shape of a substitution expression, as a predicate\<close>

text \<open>
  What the pattern describes, stated without the matcher: \<open>m\<close> is
  \<open>$(kw a)\<close> with a non-empty keyword of letters and underscores and a non-empty
  argument of letters, digits and underscores; a text has an expression when
  one occurs somewhere in it.
\<close>

definition is_expr :: "string \<Rightarrow> string \<Rightarrow> string \<Rightarrow> bool" where
  "is_expr m kw a =
     (m = ''$('' @ kw @ '' '' @ a @ '')'' \<and> kw \<noteq> [] \<and> list_all kwchar kw \<and>
      a \<noteq> [] \<and> list_all argchar a)"

definition has_expr :: "string \<Rightarrow> bool" where
  "has_expr text = (\<exists>pre m kw a post. text = pre @ m @ post \<and> is_expr m kw a)"

subsection \<open>Launch files and nodes\<close>

text \<open>
  The named tuple \<open>Node\<close>. Its first field refers to the \<open>LaunchFile\<close> object
  that declared the node; the program only ever asks that object for its clean
  name, a function of its file name, so the field holds the file name.
\<close>

datatype Node =
  Node (launchFile: string) (package: string) (nodeType: string) (name: string) (isTestNode: bool)

text \<open>
  A \<open>LaunchFile\<close> object: \<open>__filename\<close>, \<open>__missing\<close>, \<open>__args\<close>,
  \<open>__includes\<close>, \<open>__cycles\<close>, \<open>__nodes\<close>. The selectors carry the names of
  the getters.
\<close>

datatype LaunchFile =
  LaunchFile (getFilename: string) (isMissing: bool) (getArgs: "(string \<times> string) list")
    (getIncludes: "LaunchFile list") (getCycles: "string list") (getNodes: "Node list")

text \<open>The four in-place updates of \<open>self\<close> that parsing makes.\<close>

definition setArg :: "string \<Rightarrow> string \<Rightarrow> LaunchFile \<Rightarrow> LaunchFile" where
  "setArg k v self =
     LaunchFile (getFilename self) (isMissing self) (AList.update k v (getArgs self))
       (getIncludes self) (getCycles self) (getNodes self)"

definition appendInclude :: "LaunchFile \<Rightarrow> LaunchFile \<Rightarrow> LaunchFile" where
  "appendInclude included self =
     LaunchFile (getFilename self) (isMissing self) (getArgs self)
       (getIncludes self @ [included]) (getCycles self) (getNodes self)"

definition appendCycle :: "string \<Rightarrow> LaunchFile \<Rightarrow> LaunchFile" where
  "appendCycle resolved self =
     LaunchFile (getFilename self) (isMissing self) (getArgs self)
       (getIncludes self) (getCycles self @ [resolved]) (getNodes self)"

definition appendNode :: "Node \<Rightarrow> LaunchFile \<Rightarrow> LaunchFile" where
  "appendNode node self =
     LaunchFile (getFilename self) (isMissing self) (getArgs self)
       (getIncludes self) (getCycles self) (getNodes self @ [node])"

subsection \<open>Parsing the elements of a launch file\<close>

text \<open>
  A parsing function takes \<open>self\<close> and the world and returns them with its result:
  an exception leaves behind every update made before it was raised. \<open>None\<close> is
  a call that does not return.
\<close>

type_synonym pstate = "LaunchFile \<times> world"

type_synonym 'a result = "((error + 'a) \<times> pstate) option"

definition getAttribute :: "element \<Rightarrow> string \<Rightarrow> error + string" where
  "getAttribute element attribute =
     (case map_of (attrib element) attribute of
        None \<Rightarrow> Inl (Exception (''Missing the '' @ attribute @ '' attribute''))
      | Some v \<Rightarrow> Inr v)"

text \<open>\<open>__isEnabled\<close>; \<open>isEnabled_unless\<close> is its second half, the \<open>unless\<close> attribute.\<close>

definition isEnabled_unless ::
  "platform \<Rightarrow> (string \<times> string) list \<Rightarrow> element \<Rightarrow> world \<Rightarrow> ((error + bool) \<times> world) option" where
  "isEnabled_unless P as element w =
     (case map_of (attrib element) ''unless'' of
        None \<Rightarrow> Some (Inr True, w)
      | Some unlessCase \<Rightarrow>
          (case resolveText P as unlessCase w of
             None \<Rightarrow> None
           | Some (Inl e, w') \<Rightarrow> Some (Inl e, w')
           | Some (Inr v, w') \<Rightarrow>
               if lower v \<in> set [''true'', ''1''] then Some (Inr False, w')
               else if lower v \<notin> set [''false'', ''0''] then
                 Some (Inl (Exception (''Invalid value in unless attribute: '' @ v)), w')
               else Some (Inr True, w')))"

definition isEnabled ::
  "platform \<Rightarrow> (string \<times> string) list \<Rightarrow> element \<Rightarrow> world \<Rightarrow> ((error + bool) \<times> world) option" where
  "isEnabled P as element w =
     (case map_of (attrib element) ''if'' of
        None \<Rightarrow> isEnabled_unless P as element w
      | Some ifCase \<Rightarrow>
          (case resolveText P as ifCase w of
             None \<Rightarrow> None
           | Some (Inl e, w') \<Rightarrow> Some (Inl e, w')
           | Some (Inr v, w') \<Rightarrow>
               if lower v \<in> set [''false'', ''0''] then Some (Inr False, w')
               else if lower v \<notin> set [''true'', ''1''] then
                 Some (Inl (Exception (''Invalid value in if attribute: '' @ v)), w')
               else isEnabled_unless P as element w'))"

text \<open>\<open>__parseArg\<close>: the name is required, \<open>value\<close> wins over \<open>default\<close>.\<close>

definition parseArg :: "platform \<Rightarrow> element \<Rightarrow> pstate \<Rightarrow> unit result" where
  "parseArg P arg st =
     (case getAttribute arg ''name'' of
        Inl e \<Rightarrow> Some (Inl e, st)
      | Inr nm \<Rightarrow>
          (case (case map_of (attrib arg) ''value'' of
                   None \<Rightarrow> map_of (attrib arg) ''default''
                 | Some v \<Rightarrow> Some v) of
             None \<Rightarrow>
               Some (Inl (Exception
                 ''Argument must define either the default or the value attribute''), st)
           | Some val \<Rightarrow>
               (case resolveText P (getArgs (fst st)) nm (snd st) of
                  None \<Rightarrow> None
                | Some (Inl e, w1) \<Rightarrow> Some (Inl e, fst st, w1)
                | Some (Inr nm', w1) \<Rightarrow>
                    (case resolveText P (getArgs (fst st)) val w1 of
                       None \<Rightarrow> None
                     | Some (Inl e, w2) \<Rightarrow> Some (Inl e, fst st, w2)
                     | Some (Inr val', w2) \<Rightarrow> Some (Inr (), setArg nm' val' (fst st), w2)))))"

text \<open>
  \<open>__parseNode\<close> and \<open>__parseTestNode\<close> differ in the attribute that names the
  node and in the flag; \<open>parseNodeLike\<close> is their common body.
\<close>

definition resolve3 ::
  "platform \<Rightarrow> (string \<times> string) list \<Rightarrow> string \<Rightarrow> string \<Rightarrow> string \<Rightarrow> world \<Rightarrow>
   ((error + string \<times> string \<times> string) \<times> world) option" where
  "resolve3 P as a b c w =
     (case resolveText P as a w of
        None \<Rightarrow> None
      | Some (Inl e, w1) \<Rightarrow> Some (Inl e, w1)
      | Some (Inr a', w1) \<Rightarrow>
          (case resolveText P as b w1 of
             None \<Rightarrow> None
           | Some (Inl e, w2) \<Rightarrow> Some (Inl e, w2)
           | Some (Inr b', w2) \<Rightarrow>
               (case resolveText P as c w2 of
                  None \<Rightarrow> None
                | Some (Inl e, w3) \<Rightarrow> Some (Inl e, w3)
                | Some (Inr c', w3) \<Rightarrow> Some (Inr (a', b', c'), w3))))"

definition parseNodeLike ::
  "string \<Rightarrow> bool \<Rightarrow> platform \<Rightarrow> element \<Rightarrow> pstate \<Rightarrow> (Node option) result" where
  "parseNodeLike nameAttribute isTest P node st =
     (case isEnabled P (getArgs (fst st)) node (snd st) of
        None \<Rightarrow> None
      | Some (Inl e, w1) \<Rightarrow> Some (Inl e, fst st, w1)
      | Some (Inr enabled, w1) \<Rightarrow>
          if \<not> enabled then Some (Inr None, fst st, w1)
          else
            (case getAttribute node ''pkg'' of
               Inl e \<Rightarrow> Some (Inl e, fst st, w1)
             | Inr pkg \<Rightarrow>
                 (case getAttribute node ''type'' of
                    Inl e \<Rightarrow> Some (Inl e, fst st, w1)
                  | Inr ty \<Rightarrow>
                      (case getAttribute node nameAttribute of
                         Inl e \<Rightarrow> Some (Inl e, fst st, w1)
                       | Inr nm \<Rightarrow>
                           (case resolve3 P (getArgs (fst st)) pkg ty nm w1 of
                              None \<Rightarrow> None
                            | Some (Inl e, w2) \<Rightarrow> Some (Inl e, fst st, w2)
                            | Some (Inr r, w2) \<Rightarrow>
                                Some (Inr (Some (Node (getFilename (fst st)) (fst r) (fst (snd r))
                                                   (snd (snd r)) isTest)),
                                      fst st, w2))))))"

definition parseNode :: "platform \<Rightarrow> element \<Rightarrow> pstate \<Rightarrow> (Node option) result" where
  "parseNode = parseNodeLike ''name'' False"

definition parseTestNode :: "platform \<Rightarrow> element \<Rightarrow> pstate \<Rightarrow> (Node option) result" where
  "parseTestNode = parseNodeLike ''test-name'' True"

text \<open>
  The part of \<open>__parseInclude\<close> before the new \<open>LaunchFile\<close> is constructed: the
  enable test, the \<open>file\<close> attribute (whose absence \<open>__getAttribute\<close> already
  reports, so the test \<open>filename is None\<close> after it never fires), its resolution,
  and the cycle recorded when the resolved name has been visited. The result is
  the resolved name, or \<open>None\<close> for a disabled element.
\<close>

definition resolveInclude :: "platform \<Rightarrow> element \<Rightarrow> pstate \<Rightarrow> (string option) result" where
  "resolveInclude P include st =
     (case isEnabled P (getArgs (fst st)) include (snd st) of
        None \<Rightarrow> None
      | Some (Inl e, w1) \<Rightarrow> Some (Inl e, fst st, w1)
      | Some (Inr enabled, w1) \<Rightarrow>
          if \<not> enabled then Some (Inr None, fst st, w1)
          else
            (case getAttribute include ''file'' of
               Inl e \<Rightarrow> Some (Inl e, fst st, w1)
             | Inr fname \<Rightarrow>
                 (case resolveText P (getArgs (fst st)) fname w1 of
                    None \<Rightarrow> None
                  | Some (Inl e, w2) \<Rightarrow> Some (Inl e, fst st, w2)
                  | Some (Inr resolved, w2) \<Rightarrow>
                      Some (Inr (Some resolved),
                            (if resolved \<in> visited w2 then appendCycle resolved (fst st) else fst st),
                            w2))))"

text \<open>
  The constructor \<open>LaunchFile(filename)\<close>, \<open>__parseLaunchFile\<close>,
  \<open>__parseLaunchElements\<close>, \<open>__parseInclude\<close> and \<open>__parseGroup\<close> call each
  other. The first argument after the platform is fuel: it bounds the depth of
  nested includes and groups, and a call that runs out of it is \<open>None\<close>.
  \<open>parseLaunchElement\<close> is the body of the loop of \<open>__parseLaunchElements\<close>
  for one child: its bare \<open>except:\<close> clauses catch every exception of an
  include, group, node or test element, and the loop goes on with the next
  element; an \<open>arg\<close> element is parsed outside any \<open>try\<close>, so only its
  exception leaves the loop.
\<close>

function (sequential) LaunchFile_init :: "platform \<Rightarrow> nat \<Rightarrow> string \<Rightarrow> world \<Rightarrow> ((error + LaunchFile) \<times> world) option"
  and parseLaunchFile :: "platform \<Rightarrow> nat \<Rightarrow> string \<Rightarrow> pstate \<Rightarrow> unit result"
  and parseLaunchElements :: "platform \<Rightarrow> nat \<Rightarrow> element list \<Rightarrow> pstate \<Rightarrow> unit result"
  and parseLaunchElement :: "platform \<Rightarrow> nat \<Rightarrow> element \<Rightarrow> pstate \<Rightarrow> unit result"
  and parseInclude :: "platform \<Rightarrow> nat \<Rightarrow> element \<Rightarrow> pstate \<Rightarrow> (LaunchFile option) result"
  and parseGroup :: "platform \<Rightarrow> nat \<Rightarrow> element \<Rightarrow> pstate \<Rightarrow> unit result"
where
  "LaunchFile_init P 0 fname w = None"
| "LaunchFile_init P (Suc n) fname w =
     (if fname \<notin> visited w then
        if files P fname \<noteq> Missing then
          (case parseLaunchFile P n fname
                  (LaunchFile fname False [] [] [] [], w\<lparr>visited := insert fname (visited w)\<rparr>) of
             None \<Rightarrow> None
           | Some (Inl e, st) \<Rightarrow> Some (Inl e, snd st)
           | Some (Inr u, st) \<Rightarrow> Some (Inr (fst st), snd st))
        else Some (Inr (LaunchFile fname True [] [] [] []), w\<lparr>visited := insert fname (visited w)\<rparr>)
      else
        Some (Inr (LaunchFile fname (files P fname = Missing) [] [] [] []),
              w\<lparr>visited := insert fname (visited w)\<rparr>))"
| "parseLaunchFile P n fname st =
     (case files P fname of
        Document root \<Rightarrow> parseLaunchElements P n (children root) st
      | Malformed \<Rightarrow> Some (Inl (ParseError fname), st)
      | Missing \<Rightarrow> Some (Inl (ParseError fname), st))"
| "parseLaunchElements P n [] st = Some (Inr (), st)"
| "parseLaunchElements P n (child # rest) st =
     (case parseLaunchElement P n child st of
        None \<Rightarrow> None
      | Some (Inl e, st') \<Rightarrow> Some (Inl e, st')
      | Some (Inr u, st') \<Rightarrow> parseLaunchElements P n rest st')"
| "parseLaunchElement P n child st =
     (if tag child = ''arg'' then parseArg P child st
      else if tag child = ''include'' then
        (case parseInclude P n child st of
           None \<Rightarrow> None
         | Some (Inl e, st') \<Rightarrow> Some (Inr (), st')
         | Some (Inr None, st') \<Rightarrow> Some (Inr (), st')
         | Some (Inr (Some included), st') \<Rightarrow>
             Some (Inr (), appendInclude included (fst st'), snd st'))
      else if tag child = ''group'' then
        (case parseGroup P n child st of
           None \<Rightarrow> None
         | Some (r, st') \<Rightarrow> Some (Inr (), st'))
      else if tag child = ''node'' then
        (case parseNode P child st of
           None \<Rightarrow> None
         | Some (Inl e, st') \<Rightarrow> Some (Inr (), st')
         | Some (Inr None, st') \<Rightarrow> Some (Inr (), st')
         | Some (Inr (Some node), st') \<Rightarrow> Some (Inr (), appendNode node (fst st'), snd st'))
      else if tag child = ''test'' then
        (case parseTestNode P child st of
           None \<Rightarrow> None
         | Some (Inl e, st') \<Rightarrow> Some (Inr (), st')
         | Some (Inr None, st') \<Rightarrow> Some (Inr (), st')
         | Some (Inr (Some testNode), st') \<Rightarrow>
             Some (Inr (), appendNode testNode (fst st'), snd st'))
      else Some (Inr (), st))"
| "parseInclude P n include st =
     (case resolveInclude P include st of
        None \<Rightarrow> None
      | Some (Inl e, st') \<Rightarrow> Some (Inl e, st')
      | Some (Inr None, st') \<Rightarrow> Some (Inr None, st')
      | Some (Inr (Some resolved), st') \<Rightarrow>
          (case LaunchFile_init P n resolved (snd st') of
             None \<Rightarrow> None
           | Some (Inl e, w') \<Rightarrow> Some (Inl e, fst st', w')
           | Some (Inr included, w') \<Rightarrow> Some (Inr (Some included), fst st', w')))"
| "parseGroup P 0 grp st = None"
| "parseGroup P (Suc n) grp st =
     (case isEnabled P (getArgs (fst st)) grp (snd st) of
        None \<Rightarrow> None
      | Some (Inl e, w1) \<Rightarrow> Some (Inl e, fst st, w1)
      | Some (Inr enabled, w1) \<Rightarrow>
          if \<not> enabled then Some (Inr (), fst st, w1)
          else parseLaunchElements P n (children grp) (fst st, w1))"
  by pat_completeness auto
termination
  by (relation "measures [
        (\<lambda>x. case x of
           Inl (Inl (P, n, f, w)) \<Rightarrow> n
         | Inl (Inr (Inl (P, n, f, st))) \<Rightarrow> n
         | Inl (Inr (Inr (P, n, cs, st))) \<Rightarrow> n
         | Inr (Inl (P, n, c, st)) \<Rightarrow> n
         | Inr (Inr (Inl (P, n, c, st))) \<Rightarrow> n
         | Inr (Inr (Inr (P, n, c, st))) \<Rightarrow> n),
        (\<lambda>x. case x of
           Inl (Inl a) \<Rightarrow> 1
         | Inl (Inr (Inl a)) \<Rightarrow> 5
         | Inl (Inr (Inr a)) \<Rightarrow> 4
         | Inr (Inl a) \<Rightarrow> 3
         | Inr (Inr (Inl a)) \<Rightarrow> 2
         | Inr (Inr (Inr a)) \<Rightarrow> 2),
        (\<lambda>x. case x of
           Inl (Inr (Inr (P, n, cs, st))) \<Rightarrow> length cs
         | _ \<Rightarrow> 0)]") auto

declare parseLaunchElement.simps [simp del] parseInclude.simps [simp del]
  parseLaunchFile.simps [simp del]

subsection \<open>Names derived from a path\<close>

text \<open>
  \<open>os.path.basename\<close> and the first component of \<open>os.path.splitext\<close> (POSIX):
  the extension starts at the last dot, provided the dot comes after the last
  slash and some character between the two is not a dot.
\<close>

definition basename :: "string \<Rightarrow> string" where
  "basename p = rev (takeWhile (\<lambda>c. c \<noteq> CHR ''/'') (rev p))"

definition rfind :: "char \<Rightarrow> string \<Rightarrow> int" where
  "rfind c p =
     (if c \<in> set p then int (length p) - 1 - int (length (takeWhile (\<lambda>x. x \<noteq> c) (rev p)))
      else - 1)"

definition splitext_root :: "string \<Rightarrow> string" where
  "splitext_root p =
     (if rfind CHR ''.'' p > rfind CHR ''/'' p \<and>
         list_ex (\<lambda>c. c \<noteq> CHR ''.'')
           (drop (nat (rfind CHR ''/'' p + 1)) (take (nat (rfind CHR ''.'' p)) p))
      then take (nat (rfind CHR ''.'' p)) p
      else p)"

definition cleanName :: "string \<Rightarrow> string" where
  "cleanName fname = replace (splitext_root (basename fname)) ''.'' ''_''"

definition getCleanName :: "LaunchFile \<Rightarrow> string" where
  "getCleanName lf = cleanName (getFilename lf)"

definition getPackageName :: "LaunchFile \<Rightarrow> error + string" where
  "getPackageName lf =
     (case split (getFilename lf) ''/launch/'' of
        packageDir # relative # others \<Rightarrow> Inr (basename packageDir)
      | _ \<Rightarrow> Inl (Exception (''Failed to get package name for: '' @ getFilename lf)))"

subsection \<open>Flattening the tree\<close>

fun getAllLaunchFiles :: "LaunchFile \<Rightarrow> LaunchFile list" where
  "getAllLaunchFiles (LaunchFile f m a incs cs ns) =
     LaunchFile f m a incs cs ns # concat (map getAllLaunchFiles incs)"

fun getAllNodes :: "LaunchFile \<Rightarrow> Node list" where
  "getAllNodes (LaunchFile f m a incs cs ns) = ns @ concat (map getAllNodes incs)"

definition getNumNodes :: "LaunchFile \<Rightarrow> nat" where
  "getNumNodes lf =
     card (fold (\<lambda>node uniqueNodes. insert (package node, nodeType node, name node) uniqueNodes)
             (getAllNodes lf) {})"

definition getNumLaunchFiles :: "LaunchFile \<Rightarrow> nat" where
  "getNumLaunchFiles lf =
     card (fold (\<lambda>included uniqueLaunchFiles. insert (getFilename included) uniqueLaunchFiles)
             (getAllLaunchFiles lf) {})"

subsection \<open>The package map\<close>

text \<open>
  The dictionaries of \<open>getPackageMap\<close> are iterated, so their order is read. A
  dictionary is an association list in the order in which its keys were first
  inserted; the order in which the runtime iterates it is not fixed by the program
  and is a parameter: \<open>dictOrder r ks\<close> is the order in which a dictionary
  iterates keys that were inserted in the order \<open>ks\<close>, \<open>setOrder r ks\<close> the same
  for a set.
\<close>

record runtime =
  dictOrder :: "string list \<Rightarrow> string list"
  setOrder :: "string list \<Rightarrow> string list"

definition dictAppend :: "string \<Rightarrow> 'a \<Rightarrow> (string \<times> 'a list) list \<Rightarrow> (string \<times> 'a list) list" where
  "dictAppend k v d =
     (case map_of d k of
        None \<Rightarrow> AList.update k [v] d
      | Some vs \<Rightarrow> AList.update k (vs @ [v]) d)"

definition dictGet :: "(string \<times> 'a list) list \<Rightarrow> string \<Rightarrow> 'a list" where
  "dictGet d k = (case map_of d k of None \<Rightarrow> [] | Some vs \<Rightarrow> vs)"

definition iteritems :: "runtime \<Rightarrow> (string \<times> 'a) list \<Rightarrow> (string \<times> 'a) list" where
  "iteritems r d = List.map_filter (\<lambda>k. map_option (Pair k) (map_of d k)) (dictOrder r (map fst d))"

fun packageLaunchFileMap ::
  "LaunchFile list \<Rightarrow> (string \<times> LaunchFile list) list \<Rightarrow> error + (string \<times> LaunchFile list) list" where
  "packageLaunchFileMap [] d = Inr d"
| "packageLaunchFileMap (lf # lfs) d =
     (case getPackageName lf of
        Inl e \<Rightarrow> Inl e
      | Inr packageName \<Rightarrow> packageLaunchFileMap lfs (dictAppend packageName lf d))"

definition packageNodeMap :: "Node list \<Rightarrow> (string \<times> Node list) list" where
  "packageNodeMap ns = fold (\<lambda>node d. dictAppend (package node) node d) ns []"

type_synonym packageMap = "(string \<times> LaunchFile list \<times> Node list) list"

definition getPackageMap :: "runtime \<Rightarrow> LaunchFile \<Rightarrow> error + packageMap" where
  "getPackageMap r lf =
     (case packageLaunchFileMap (getAllLaunchFiles lf) [] of
        Inl e \<Rightarrow> Inl e
      | Inr lfm \<Rightarrow>
          Inr (fold (\<lambda>pkg d. AList.update pkg
                               (dictGet lfm pkg, dictGet (packageNodeMap (getAllNodes lf)) pkg) d)
                 (setOrder r (rev (remdups (rev
                    (map fst (iteritems r lfm) @
                     map fst (iteritems r (packageNodeMap (getAllNodes lf))))))))
                 []))"

subsection \<open>The dot text\<close>

definition getAttributeStr :: "string list \<Rightarrow> string" where
  "getAttributeStr attributes = join '', '' attributes"

definition launchDecl :: "LaunchFile \<Rightarrow> string" where
  \<open>launchDecl lf =
     ''        "launch_'' @ getCleanName lf @ ''" ['' @
     getAttributeStr
       [''label="'' @ basename (getFilename lf) @ ''"'',
        ''shape=rectangle'',
        ''style=filled'',
        ''fillcolor="'' @ (if isMissing lf then ''#cc0000'' else ''#d3d3d3'') @ ''"''] @
     ''];''\<close>

definition nodeDecl :: "Node \<Rightarrow> string" where
  \<open>nodeDecl node =
     ''        "node_'' @ name node @ ''" [label="'' @ name node @ ''" '' @
     getAttributeStr
       [''shape=rectangle'',
        ''style=filled'',
        ''fillcolor="'' @ (if isTestNode node then ''#009900'' else ''#6495ed'') @ ''"''] @
     ''];''\<close>

definition createPackageSubgraph :: "nat \<Rightarrow> string \<Rightarrow> LaunchFile list \<times> Node list \<Rightarrow> string list" where
  \<open>createPackageSubgraph clusterNum packageName packageTuple =
     ['''',
      ''    // Subgraph for package: '' @ packageName,
      ''    subgraph cluster_'' @ str_nat clusterNum @ '' {'',
      ''        label="'' @ packageName @ ''";'',
      ''        penwidth=5;  // Thicker borders on clusters''] @
     (if length (fst packageTuple) > 0 then
        ['''', ''        // Launch files contained in this package''] @
        map launchDecl (fst packageTuple)
      else ['''', ''        // This package contains no launch files'']) @
     (if length (snd packageTuple) > 0 then
        ['''', ''        // ROS nodes contained in this package''] @
        map nodeDecl (snd packageTuple)
      else ['''', ''        // This package contains no ROS nodes'']) @
     [''    }'']\<close>

text \<open>The first loop of \<open>toDot\<close>: \<open>self.__clusterNum\<close> counts the subgraphs.\<close>

fun subgraphs :: "nat \<Rightarrow> packageMap \<Rightarrow> string list" where
  "subgraphs clusterNum [] = []"
| "subgraphs clusterNum ((packageName, packageTuple) # rest) =
     createPackageSubgraph clusterNum packageName packageTuple @ subgraphs (Suc clusterNum) rest"

definition includeEdge :: "LaunchFile \<Rightarrow> LaunchFile \<Rightarrow> string list" where
  \<open>includeEdge parent included =
     (if getFilename included \<in> set (getCycles parent)
      then [''    // WARNING: This edge is cycle to a previous launch file'']
      else []) @
     [''    "launch_'' @ getCleanName parent @ ''" -> "launch_'' @ getCleanName included @ ''" ['' @
      getAttributeStr
        [''penwidth=3'',
         ''color='' @ (if getFilename included \<in> set (getCycles parent) then ''red'' else ''black'')] @
      ''];'']\<close>

definition nodeEdge :: "Node \<Rightarrow> string" where
  \<open>nodeEdge node =
     ''    "launch_'' @ cleanName (launchFile node) @ ''" -> "node_'' @ name node @ ''" ['' @
     getAttributeStr [''penwidth=3''] @ ''];''\<close>

text \<open>
  The list \<open>dotLines\<close> that \<open>toDot\<close> builds, from \<open>len(packageMap)\<close> and
  the items of \<open>packageMap.iteritems()\<close>, which its three loops walk in the
  same order.
\<close>

definition dotLines :: "nat \<Rightarrow> string \<Rightarrow> string \<Rightarrow> LaunchFile \<Rightarrow> packageMap \<Rightarrow> string list" where
  \<open>dotLines numPackages stamp command lf items =
     [''digraph '' @ getCleanName lf @ ''_launch_graph {'',
      ''    /**'',
      ''      * This dot file was automatically generated on '' @ stamp,
      ''      * By the command:'',
      ''      *    '' @ command,
      ''      *'',
      ''      * This launch graph has the following properties:'',
      ''      *    - it contains '' @ str_nat numPackages @ '' ROS packages'',
      ''      *    - it contains '' @ str_nat (getNumLaunchFiles lf) @ '' ROS launch files'',
      ''      *    - it contains '' @ str_nat (getNumNodes lf) @ '' ROS nodes'',
      ''     */'',
      ''    graph [fontsize=35, ranksep=2, nodesep=2];'',
      ''    node [fontsize=35];'',
      ''    compound=true;''] @
     subgraphs 0 items @
     ['''', ''    // Add connections between launch files''] @
     concat (map (\<lambda>item.
       concat (map (\<lambda>parent. concat (map (includeEdge parent) (getIncludes parent)))
                 (fst (snd item)))) items) @
     ['''', ''    // Add connections between launch files and nodes''] @
     concat (map (\<lambda>item. map nodeEdge (snd (snd item))) items) @
     [''}'']\<close>

text \<open>
  \<open>toDot\<close>: \<open>stamp\<close> is \<open>str(datetime.now())\<close> at the time of the call and
  \<open>argv\<close> the command line.
\<close>

definition toDot :: "runtime \<Rightarrow> string \<Rightarrow> string list \<Rightarrow> LaunchFile \<Rightarrow> error + string" where
  "toDot r stamp argv lf =
     (case getPackageMap r lf of
        Inl e \<Rightarrow> Inl e
      | Inr packageMap \<Rightarrow>
          Inr (join [CHR 0x0A]
                 (dotLines (length packageMap) stamp (join '' '' argv) lf (iteritems r packageMap))))"

subsection \<open>Reachability in the resolved tree\<close>

text \<open>
  The launch files reachable from a root by following include lists, stated
  without the traversal of \<open>getAllLaunchFiles\<close>.
\<close>

inductive_set reachable :: "LaunchFile \<Rightarrow> LaunchFile set" for root :: LaunchFile where
  root: "root \<in> reachable root"
| step: "x \<in> reachable root \<Longrightarrow> y \<in> set (getIncludes x) \<Longrightarrow> y \<in> reachable root"

definition triple :: "Node \<Rightarrow> string \<times> string \<times> string" where
  "triple node = (package node, nodeType node, name node)"

subsection \<open>The boolean literals of the enable attributes\<close>

text \<open>
  A resolved attribute value is truthy when, lower-cased, it is \<open>true\<close> or
  \<open>1\<close>, falsy when it is \<open>false\<close> or \<open>0\<close>; \<open>unset_or\<close> lifts a
  test to an attribute that may be absent.
\<close>

definition truthy :: "string \<Rightarrow> bool" where
  "truthy v = (lower v = ''true'' \<or> lower v = ''1'')"

definition falsy :: "string \<Rightarrow> bool" where
  "falsy v = (lower v = ''false'' \<or> lower v = ''0'')"

definition unset_or :: "(string \<Rightarrow> bool) \<Rightarrow> string option \<Rightarrow> bool" where
  "unset_or p v = (case v of None \<Rightarrow> True | Some x \<Rightarrow> p x)"

text \<open>
  \<open>attr_resolves P as el k w v w'\<close>: the attribute \<open>k\<close> of \<open>el\<close> is absent
  (\<open>v = None\<close>, and the world stays), or present and resolved without an error to
  \<open>x\<close> (\<open>v = Some x\<close>), leaving the world \<open>w'\<close>.
\<close>

definition attr_resolves ::
  "platform \<Rightarrow> (string \<times> string) list \<Rightarrow> element \<Rightarrow> string \<Rightarrow> world \<Rightarrow> string option \<Rightarrow> world \<Rightarrow> bool" where
  "attr_resolves P as el k w v w' =
     (case map_of (attrib el) k of
        None \<Rightarrow> v = None \<and> w' = w
      | Some t \<Rightarrow> (case v of None \<Rightarrow> False | Some x \<Rightarrow> resolveText P as t w = Some (Inr x, w')))"

subsection \<open>The value of an argument element\<close>

text \<open>The text an argument element gives its argument: \<open>value\<close>, else \<open>default\<close>.\<close>

definition argValue :: "element \<Rightarrow> string option" where
  "argValue arg =
     (case map_of (attrib arg) ''value'' of
        None \<Rightarrow> map_of (attrib arg) ''default''
      | Some v \<Rightarrow> Some v)"

section \<open>Properties of the resolver\<close>

subsection \<open>The matcher finds exactly the expressions\<close>

lemma not_kwchar_space: "\<not> kwchar CHR '' ''" by (simp add: kwchar_def)
lemma not_argchar_paren: "\<not> argchar CHR '')''" by (simp add: argchar_def)
lemma not_kwchar_dollar: "\<not> kwchar CHR ''$''" by (simp add: kwchar_def)
lemma not_argchar_dollar: "\<not> argchar CHR ''$''" by (simp add: argchar_def)

lemma takeWhile_run: "list_all P xs \<Longrightarrow> \<not> P y \<Longrightarrow> takeWhile P (xs @ y # ys) = xs"
  by (induction xs) auto
lemma dropWhile_run: "list_all P xs \<Longrightarrow> \<not> P y \<Longrightarrow> dropWhile P (xs @ y # ys) = y # ys"
  by (induction xs) auto

lemma match_here_expr:
  assumes "is_expr m kw a"
  shows "match_here (m @ rest) = Some (m, kw, a)"
proof -
  from assms have m: "m = ''$('' @ kw @ '' '' @ a @ '')''" and kw: "kw \<noteq> []" "list_all kwchar kw"
    and a: "a \<noteq> []" "list_all argchar a" by (auto simp: is_expr_def)
  have t1: "takeWhile kwchar (kw @ CHR '' '' # a @ CHR '')'' # rest) = kw"
    using kw not_kwchar_space by (intro takeWhile_run) auto
  have d1: "dropWhile kwchar (kw @ CHR '' '' # a @ CHR '')'' # rest) = CHR '' '' # a @ CHR '')'' # rest"
    using kw not_kwchar_space by (intro dropWhile_run) auto
  have t2: "takeWhile argchar (a @ CHR '')'' # rest) = a"
    using a not_argchar_paren by (intro takeWhile_run) auto
  have d2: "dropWhile argchar (a @ CHR '')'' # rest) = CHR '')'' # rest"
    using a not_argchar_paren by (intro dropWhile_run) auto
  show ?thesis
    using kw a by (simp add: m match_here_def t1 d1 t2 d2)
qed

lemma match_here_SomeD:
  assumes "match_here s = Some (m, kw, a)"
  shows "is_expr m kw a \<and> (\<exists>rest. s = m @ rest)"
proof -
  from assms obtain r where s: "s = CHR ''$'' # CHR ''('' # r" and k: "takeWhile kwchar r \<noteq> []"
    by (auto simp: match_here_def split: list.splits if_splits)
  from assms s k obtain r2 where d1: "dropWhile kwchar r = CHR '' '' # r2" and a: "takeWhile argchar r2 \<noteq> []"
    by (auto simp: match_here_def split: list.splits if_splits)
  from assms s k d1 a obtain r3 where d2: "dropWhile argchar r2 = CHR '')'' # r3"
    by (auto simp: match_here_def split: list.splits if_splits)
  from assms s k d1 a d2 have res: "m = ''$('' @ takeWhile kwchar r @ '' '' @ takeWhile argchar r2 @ '')''"
     "kw = takeWhile kwchar r" "a = takeWhile argchar r2"
    by (auto simp: match_here_def)
  have r: "r = takeWhile kwchar r @ CHR '' '' # r2" using d1 takeWhile_dropWhile_id[of kwchar r] by simp
  have r2: "r2 = takeWhile argchar r2 @ CHR '')'' # r3" using d2 takeWhile_dropWhile_id[of argchar r2] by simp
  have "s = m @ r3" unfolding s res using r r2 by (metis append_Cons append_Nil append_assoc)
  moreover have "is_expr m kw a" using k a res
    by (auto simp: is_expr_def list_all_iff dest: set_takeWhileD)
  ultimately show ?thesis by blast
qed

lemma match_here_not_dollar: "c \<noteq> CHR ''$'' \<Longrightarrow> match_here (c # cs) = None"
  by (simp add: match_here_def split: list.splits)

lemma search_skip: "CHR ''$'' \<notin> set s \<Longrightarrow> search (s @ t) = search t"
  by (induction s) (auto simp: match_here_not_dollar)

lemma search_no_dollar: "CHR ''$'' \<notin> set s \<Longrightarrow> search s = None"
  using search_skip[of s "[]"] by simp

lemma search_found: "is_expr m kw a \<Longrightarrow> search (m @ rest) = Some (m, kw, a)"
  using match_here_expr[of m kw a rest] by (cases "m @ rest") (auto simp: is_expr_def)

lemma search_None_iff: "search text = None \<longleftrightarrow> \<not> has_expr text"
proof
  assume "search text = None"
  then have "\<And>pre post. text = pre @ post \<Longrightarrow> match_here post = None"
  proof (induction "text")
    case Nil then show ?case by (simp add: match_here_def)
  next
    case (Cons c cs)
    show ?case
    proof (cases pre)
      case Nil
      with Cons.prems show ?thesis by (auto split: option.splits)
    next
      case (Cons p ps)
      with Cons.prems Cons.IH[of ps post] show ?thesis by (auto split: option.splits)
    qed
  qed
  then show "\<not> has_expr text"
    using match_here_expr by (fastforce simp: has_expr_def)
next
  assume n: "\<not> has_expr text"
  show "search text = None"
  proof (rule ccontr)
    assume "search text \<noteq> None"
    then obtain m kw a where "search text = Some (m, kw, a)" by auto
    then have "\<exists>pre post. text = pre @ post \<and> match_here post = Some (m, kw, a)"
    proof (induction "text")
      case Nil then show ?case by simp
    next
      case (Cons c cs)
      show ?case
      proof (cases "match_here (c # cs)")
        case None
        with Cons obtain pre post where "cs = pre @ post" "match_here post = Some (m, kw, a)" by auto
        then have "c # cs = (c # pre) @ post \<and> match_here post = Some (m, kw, a)" by simp
        then show ?thesis by blast
      next
        case (Some x)
        with Cons.prems have "match_here (c # cs) = Some (m, kw, a)" by simp
        then have "c # cs = [] @ (c # cs) \<and> match_here (c # cs) = Some (m, kw, a)" by simp
        then show ?thesis by blast
      qed
    qed
    then obtain pre post where "text = pre @ post" "match_here post = Some (m, kw, a)" by blast
    with match_here_SomeD[of post m kw a] have "has_expr text" by (auto simp: has_expr_def)
    with n show False by simp
  qed
qed

subsection \<open>Replacing between segments without a dollar sign\<close>

lemma replace_skip:
  "CHR ''$'' \<notin> set s \<Longrightarrow> replace (s @ t) (CHR ''$'' # old) new = s @ replace t (CHR ''$'' # old) new"
  by (induction s) auto

lemma replace_no_dollar:
  "CHR ''$'' \<notin> set s \<Longrightarrow> replace s (CHR ''$'' # old) new = s"
  using replace_skip[of s "[]" old new] by simp

lemma replace_here:
  "replace ((v # va) @ t) (v # va) new = new @ replace t (v # va) new"
  by simp

lemma replace_join:
  assumes "\<forall>s\<in>set segs. CHR ''$'' \<notin> set s"
  shows "replace (join (CHR ''$'' # old) segs) (CHR ''$'' # old) new = join new segs"
  using assms
proof (induction "CHR ''$'' # old" segs rule: join.induct)
  case 1 then show ?case by simp
next
  case (2 x) then show ?case by (simp add: replace_no_dollar)
next
  case More: (3 x y ys)
  have "replace (x @ (CHR ''$'' # old) @ join (CHR ''$'' # old) (y # ys)) (CHR ''$'' # old) new
        = x @ replace ((CHR ''$'' # old) @ join (CHR ''$'' # old) (y # ys)) (CHR ''$'' # old) new"
    using More.prems by (simp add: replace_skip)
  also have "\<dots> = x @ new @ replace (join (CHR ''$'' # old) (y # ys)) (CHR ''$'' # old) new"
    by (simp only: replace_here)
  finally show ?case using More by simp
qed

lemma search_join:
  assumes "is_expr m kw a" "CHR ''$'' \<notin> set x"
  shows "search (join m (x # y # ys)) = Some (m, kw, a)"
  using assms by (simp add: search_skip search_found)

lemma join_no_dollar:
  "CHR ''$'' \<notin> set r \<Longrightarrow> \<forall>s\<in>set segs. CHR ''$'' \<notin> set s \<Longrightarrow> CHR ''$'' \<notin> set (join r segs)"
  by (induction r segs rule: join.induct) auto

lemma digit_not_dollar: "digit d \<noteq> CHR ''$''"
proof -
  have "d mod 10 < length ''0123456789''" by simp
  then have "digit d \<in> set ''0123456789''" unfolding digit_def by (rule nth_mem)
  then show ?thesis by auto
qed

lemma str_nat_no_dollar: "CHR ''$'' \<notin> set (str_nat n)"
proof (induction n rule: str_nat.induct)
  case (1 n)
  then show ?case using digit_not_dollar[of n] digit_not_dollar[of "n mod 10"]
    by (subst str_nat.simps) auto
qed

lemma argchar_no_dollar: "list_all argchar x \<Longrightarrow> CHR ''$'' \<notin> set x"
  using not_argchar_dollar by (auto simp: list_all_iff)

lemma is_expr_dollar: "is_expr m kw a \<Longrightarrow> \<exists>old. m = CHR ''$'' # old"
  by (simp add: is_expr_def)

lemma resolve_step:
  assumes "is_expr m kw a" "\<forall>s\<in>set (x # y # ys). CHR ''$'' \<notin> set s"
      "substitutionArgFnMap P args kw = Some fn" "fn a w = (Inr r, w')"
  shows "resolveText P args (join m (x # y # ys)) w = resolveText P args (join r (x # y # ys)) w'"
proof -
  from assms(1) obtain old where m: "m = CHR ''$'' # old" using is_expr_dollar by blast
  have s: "search (join m (x # y # ys)) = Some (m, kw, a)"
    using assms(1,2) by (intro search_join) auto
  have r: "replace (join m (x # y # ys)) m r = join r (x # y # ys)"
    unfolding m using assms(2) by (rule replace_join)
  show ?thesis
    by (subst resolveText.simps) (simp only: s r assms(3,4) option.case prod.case sum.case fst_conv snd_conv)
qed

lemma anon_is_expr: "x \<noteq> [] \<Longrightarrow> list_all argchar x \<Longrightarrow> is_expr (''$(anon '' @ x @ '')'') ''anon'' x"
  by (simp add: is_expr_def kwchar_def)

lemma resolve_anon:
  assumes "x \<noteq> []" "list_all argchar x" "\<forall>s\<in>set (s0 # s1 # ss). CHR ''$'' \<notin> set s"
  shows "resolveText P args (join (''$(anon '' @ x @ '')'') (s0 # s1 # ss)) w =
         Some (Inr (join (x @ ''-'' @ str_nat (randint P (draws w) mod 1000)) (s0 # s1 # ss)),
               w\<lparr>draws := Suc (draws w)\<rparr>)"
proof -
  let ?tok = "x @ ''-'' @ str_nat (randint P (draws w) mod 1000)"
  have f: "substitutionArgFnMap P args ''anon'' = Some (onAnonSubstitutionArg P)"
    by (simp add: substitutionArgFnMap_def)
  have h: "onAnonSubstitutionArg P x w = (Inr ?tok, w\<lparr>draws := Suc (draws w)\<rparr>)"
    by (simp add: onAnonSubstitutionArg_def)
  have "CHR ''$'' \<notin> set ?tok"
    using argchar_no_dollar[OF assms(2)] str_nat_no_dollar by simp
  then have "CHR ''$'' \<notin> set (join ?tok (s0 # s1 # ss))"
    using assms(3) by (rule join_no_dollar)
  then have n: "search (join ?tok (s0 # s1 # ss)) = None" by (rule search_no_dollar)
  have "resolveText P args (join (''$(anon '' @ x @ '')'') (s0 # s1 # ss)) w
        = resolveText P args (join ?tok (s0 # s1 # ss)) (w\<lparr>draws := Suc (draws w)\<rparr>)"
    using anon_is_expr[OF assms(1,2)] assms(3) f h by (rule resolve_step)
  also have "\<dots> = Some (Inr (join ?tok (s0 # s1 # ss)), w\<lparr>draws := Suc (draws w)\<rparr>)"
    by (subst resolveText.simps) (simp only: n option.case)
  finally show ?thesis .
qed

subsection \<open>\<open>replace\<close> through \<open>split\<close> and \<open>join\<close>\<close>

lemma split_not_Nil: "split tx m \<noteq> []"
  by (induction tx m rule: split.induct) (auto split: list.splits)

lemma join_Cons_Cons: "join m ((c # p) # ps) = c # join m (p # ps)"
  by (cases ps) auto

lemma join_Nil_Cons: "ps \<noteq> [] \<Longrightarrow> join m ([] # ps) = m @ join m ps"
  by (cases ps) auto

lemma join_split: "m \<noteq> [] \<Longrightarrow> join m (split tx m) = tx"
proof (induction tx m rule: split.induct)
  case (1 tx) then show ?case by simp
next
  case (2 v va) then show ?case by simp
next
  case (3 c cs v va)
  show ?case
  proof (cases "prefix (v # va) (c # cs)")
    case True
    then obtain rest where r: "c # cs = (v # va) @ rest" by (auto simp: prefix_def)
    then have d: "drop (length (v # va)) (c # cs) = rest" by (metis append_eq_conv_conj)
    from 3(1)[OF True] d have "join (v # va) (split rest (v # va)) = rest" by simp
    with True r d show ?thesis
      using join_Nil_Cons[OF split_not_Nil, of "v # va" rest "v # va"] by simp
  next
    case False
    obtain p ps where s: "split cs (v # va) = p # ps"
      using split_not_Nil[of cs "v # va"] by (cases "split cs (v # va)") auto
    from 3(2)[OF False] s have "join (v # va) (p # ps) = cs" by simp
    with False s show ?thesis by (simp add: join_Cons_Cons del: Cons_prefix_Cons)
  qed
qed

lemma replace_join_split: "m \<noteq> [] \<Longrightarrow> replace tx m r = join r (split tx m)"
proof (induction tx m rule: split.induct)
  case (1 tx) then show ?case by simp
next
  case (2 v va) then show ?case by simp
next
  case (3 c cs v va)
  show ?case
  proof (cases "prefix (v # va) (c # cs)")
    case True
    from 3(1)[OF True] have "replace (drop (length (v # va)) (c # cs)) (v # va) r =
        join r (split (drop (length (v # va)) (c # cs)) (v # va))" by simp
    with True show ?thesis
      using join_Nil_Cons[OF split_not_Nil, of r "drop (length (v # va)) (c # cs)" "v # va"] by simp
  next
    case False
    obtain p ps where s: "split cs (v # va) = p # ps"
      using split_not_Nil[of cs "v # va"] by (cases "split cs (v # va)") auto
    from 3(2)[OF False] s have "replace cs (v # va) r = join r (p # ps)" by simp
    with False s show ?thesis by (simp add: join_Cons_Cons del: Cons_prefix_Cons)
  qed
qed

lemma prefix_join_hd: "prefix p (join m (p # ps))"
  by (cases ps) auto

lemma contains_Nil_iff: "contains [] m = (m = [])"
  by simp

lemma split_pieces_free: "m \<noteq> [] \<Longrightarrow> \<forall>s\<in>set (split tx m). \<not> contains s m"
proof (induction tx m rule: split.induct)
  case (1 tx) then show ?case by simp
next
  case (2 v va) then show ?case by simp
next
  case (3 c cs v va)
  show ?case
  proof (cases "prefix (v # va) (c # cs)")
    case True
    with 3(1)[OF True] show ?thesis by simp
  next
    case False
    obtain p ps where s: "split cs (v # va) = p # ps"
      using split_not_Nil[of cs "v # va"] by (cases "split cs (v # va)") auto
    from 3(2)[OF False] s have ih: "\<not> contains p (v # va)" "\<forall>x\<in>set ps. \<not> contains x (v # va)" by auto
    have "cs = join (v # va) (p # ps)" using join_split[of "v # va" cs] s by simp
    then have pc: "prefix p cs" using prefix_join_hd[of p "v # va" ps] by simp
    have "\<not> prefix (v # va) (c # p)"
    proof
      assume "prefix (v # va) (c # p)"
      moreover have "prefix (c # p) (c # cs)" using pc by simp
      ultimately have "prefix (v # va) (c # cs)" by (rule prefix_order.trans)
      with False show False by simp
    qed
    with ih False s show ?thesis by (simp del: Cons_prefix_Cons)
  qed
qed

lemma search_is_expr: "search tx = Some (m, kw, a) \<Longrightarrow> is_expr m kw a"
proof (induction tx)
  case Nil then show ?case by simp
next
  case (Cons c cs)
  then show ?case using match_here_SomeD[of "c # cs" m kw a]
    by (cases "match_here (c # cs)") auto
qed

lemma resolve_step_general:
  assumes "search tx = Some (m, kw, a)" "substitutionArgFnMap P as kw = Some fn"
    "fn a w = (Inr r, w')"
  shows "resolveText P as tx w = resolveText P as (join r (split tx m)) w'"
proof -
  have "m \<noteq> []" using search_is_expr[OF assms(1)] by (auto simp: is_expr_def)
  then have "replace tx m r = join r (split tx m)" by (rule replace_join_split)
  then show ?thesis
    by (subst resolveText.simps)
      (simp only: assms option.case prod.case sum.case fst_conv snd_conv)
qed

subsection \<open>Claims about \<open>__resolveText\<close>\<close>

text \<open>
  Claim C8. A text in which no substitution expression \<open>$(keyword argument)\<close>
  occurs is returned unchanged by the resolver, and the world is left as it was.
  (The pattern of the program admits letters and underscores in the keyword; if
  no expression of the wider shape, with digits in the keyword, occurs, then none
  of this shape does.)
\<close>

theorem resolveText_identity:
  assumes "\<not> has_expr txt"
  shows "resolveText P as txt w = Some (Inr txt, w)"
proof -
  from assms have "search txt = None" by (simp add: search_None_iff)
  then show ?thesis by (subst resolveText.simps) simp
qed

theorem resolveText_identity_witness:
  "\<not> has_expr ''/opt/ros/launch/base.launch'' \<and>
   resolveText \<lparr>files = (\<lambda>f. Missing), rospack = (\<lambda>p. p), environ = Map.empty, randint = (\<lambda>i. i)\<rparr>
     [] ''/opt/ros/launch/base.launch'' \<lparr>visited = {}, draws = 0\<rparr>
   = Some (Inr ''/opt/ros/launch/base.launch'', \<lparr>visited = {}, draws = 0\<rparr>)"
proof -
  have "search ''/opt/ros/launch/base.launch'' = None"
    by (simp add: match_here_def)
  then have h: "\<not> has_expr ''/opt/ros/launch/base.launch''"
    by (rule search_None_iff [THEN iffD1])
  show ?thesis
    using h resolveText_identity [OF h] by simp
qed

text \<open>
  Claim C10. A resolution step calls the handler of the matched expression once
  and replaces every occurrence of the matched text \<open>m\<close> by the one result
  \<open>r\<close>: whatever the text, it is its pieces between the occurrences of
  \<open>m\<close> (none of which holds \<open>m\<close>) joined by \<open>m\<close>, and the step goes on
  with the same pieces joined by \<open>r\<close>, in the world the one call left. When the
  step matches \<open>$(anon x)\<close>, every occurrence becomes the same token \<open>x-N\<close>
  and one random number is drawn. When the pieces hold no dollar sign at all, this
  one step is the whole resolution and its result is the text with the token in
  place of each occurrence.
\<close>

theorem resolveText_replaces_all_occurrences:
  "(search tx = Some (m, kw, a) \<and> substitutionArgFnMap P as kw = Some fn \<and> fn a w = (Inr r, w') \<longrightarrow>
      resolveText P as tx w = resolveText P as (replace tx m r) w' \<and>
      replace tx m r = join r (split tx m) \<and>
      tx = join m (split tx m) \<and>
      (\<forall>s\<in>set (split tx m). \<not> contains s m)) \<and>
   (search tx = Some (''$(anon '' @ x @ '')'', ''anon'', x) \<longrightarrow>
      resolveText P as tx w =
        resolveText P as
          (join (x @ ''-'' @ str_nat (randint P (draws w) mod 1000)) (split tx (''$(anon '' @ x @ '')'')))
          (w\<lparr>draws := Suc (draws w)\<rparr>)) \<and>
   ((\<forall>s\<in>set (s0 # s1 # ss). CHR ''$'' \<notin> set s) \<longrightarrow>
      (\<forall>m kw a fn r w'.
          is_expr m kw a \<and> substitutionArgFnMap P as kw = Some fn \<and> fn a w = (Inr r, w') \<longrightarrow>
          resolveText P as (join m (s0 # s1 # ss)) w = resolveText P as (join r (s0 # s1 # ss)) w') \<and>
      (\<forall>x. x \<noteq> [] \<and> list_all argchar x \<longrightarrow>
          resolveText P as (join (''$(anon '' @ x @ '')'') (s0 # s1 # ss)) w =
          Some (Inr (join (x @ ''-'' @ str_nat (randint P (draws w) mod 1000)) (s0 # s1 # ss)),
                w\<lparr>draws := Suc (draws w)\<rparr>)))"
proof (intro conjI impI)
  assume h: "search tx = Some (m, kw, a) \<and> substitutionArgFnMap P as kw = Some fn \<and> fn a w = (Inr r, w')"
  then have ne: "m \<noteq> []" using search_is_expr[of tx m kw a] by (auto simp: is_expr_def)
  show rj: "replace tx m r = join r (split tx m)" using ne by (rule replace_join_split)
  show "resolveText P as tx w = resolveText P as (replace tx m r) w'"
    using resolve_step_general[of tx m kw a P as fn w r w'] h rj by simp
  show "tx = join m (split tx m)" using join_split[OF ne, of tx] by simp
  show "\<forall>s\<in>set (split tx m). \<not> contains s m" using ne by (rule split_pieces_free)
next
  assume h: "search tx = Some (''$(anon '' @ x @ '')'', ''anon'', x)"
  have f: "substitutionArgFnMap P as ''anon'' = Some (onAnonSubstitutionArg P)"
    by (simp add: substitutionArgFnMap_def)
  have a: "onAnonSubstitutionArg P x w =
      (Inr (x @ ''-'' @ str_nat (randint P (draws w) mod 1000)), w\<lparr>draws := Suc (draws w)\<rparr>)"
    by (simp add: onAnonSubstitutionArg_def)
  show "resolveText P as tx w =
        resolveText P as
          (join (x @ ''-'' @ str_nat (randint P (draws w) mod 1000)) (split tx (''$(anon '' @ x @ '')'')))
          (w\<lparr>draws := Suc (draws w)\<rparr>)"
    using h f a by (rule resolve_step_general)
next
  assume h: "\<forall>s\<in>set (s0 # s1 # ss). CHR ''$'' \<notin> set s"
  show "\<forall>m kw a fn r w'.
          is_expr m kw a \<and> substitutionArgFnMap P as kw = Some fn \<and> fn a w = (Inr r, w') \<longrightarrow>
          resolveText P as (join m (s0 # s1 # ss)) w = resolveText P as (join r (s0 # s1 # ss)) w'"
    using h resolve_step by blast
  show "\<forall>x. x \<noteq> [] \<and> list_all argchar x \<longrightarrow>
          resolveText P as (join (''$(anon '' @ x @ '')'') (s0 # s1 # ss)) w =
          Some (Inr (join (x @ ''-'' @ str_nat (randint P (draws w) mod 1000)) (s0 # s1 # ss)),
                w\<lparr>draws := Suc (draws w)\<rparr>)"
    using h resolve_anon by blast
qed

theorem resolveText_replaces_all_occurrences_witness:
  "resolveText \<lparr>files = (\<lambda>f. Missing), rospack = (\<lambda>p. ''/opt/'' @ p), environ = Map.empty, randint = (\<lambda>i. 41 + i)\<rparr>
     [] ''$(find p)/$(anon c)/$(anon c)'' \<lparr>visited = {}, draws = Suc 0\<rparr>
   = Some (Inr ''/opt/p/c-42/c-42'', \<lparr>visited = {}, draws = Suc (Suc 0)\<rparr>) \<and>
   resolveText \<lparr>files = (\<lambda>f. Missing), rospack = (\<lambda>p. ''/opt/'' @ p), environ = Map.empty, randint = (\<lambda>i. 41 + i)\<rparr>
     [] ''a $(anon cam) b $(anon cam)'' \<lparr>visited = {}, draws = Suc 0\<rparr>
   = Some (Inr ''a cam-42 b cam-42'', \<lparr>visited = {}, draws = Suc (Suc 0)\<rparr>)"
proof -
  let ?P = "\<lparr>files = (\<lambda>f. Missing), rospack = (\<lambda>p. ''/opt/'' @ p), environ = Map.empty, randint = (\<lambda>i. 41 + i)\<rparr>"
  let ?w = "\<lparr>visited = {}, draws = Suc 0\<rparr>"
  let ?w2 = "\<lparr>visited = {}, draws = Suc (Suc 0)\<rparr>"
  let ?t0 = "''$(find p)/$(anon c)/$(anon c)''"
  let ?t1 = "''/opt/p/$(anon c)/$(anon c)''"
  have n: "str_nat 42 = ''42''" by (simp add: str_nat.simps digit_def)
  have s0: "search ?t0 = Some (''$(find p)'', ''find'', ''p'')"
    by (simp add: match_here_def kwchar_def argchar_def)
  have f0: "substitutionArgFnMap ?P [] ''find'' = Some (onFindSubstitutionArg ?P)"
    by (simp add: substitutionArgFnMap_def)
  have h0: "onFindSubstitutionArg ?P ''p'' ?w = (Inr ''/opt/p'', ?w)"
    by (simp add: onFindSubstitutionArg_def)
  have r0: "replace ?t0 ''$(find p)'' ''/opt/p'' = ?t1" by simp
  from resolveText_replaces_all_occurrences [of ?t0 "''$(find p)''" "''find''" "''p''" ?P "[]" "onFindSubstitutionArg ?P" ?w
      "''/opt/p''" ?w]
  have "search ?t0 = Some (''$(find p)'', ''find'', ''p'') \<and>
        substitutionArgFnMap ?P [] ''find'' = Some (onFindSubstitutionArg ?P) \<and>
        onFindSubstitutionArg ?P ''p'' ?w = (Inr ''/opt/p'', ?w) \<longrightarrow>
        resolveText ?P [] ?t0 ?w = resolveText ?P [] (replace ?t0 ''$(find p)'' ''/opt/p'') ?w"
    by blast
  with s0 f0 h0 r0 have A: "resolveText ?P [] ?t0 ?w = resolveText ?P [] ?t1 ?w" by simp
  have s1: "search ?t1 = Some (''$(anon '' @ ''c'' @ '')'', ''anon'', ''c'')"
    by (simp add: match_here_def kwchar_def argchar_def)
  have sp: "split ?t1 (''$(anon '' @ ''c'' @ '')'') = [''/opt/p/'', ''/'', '''']" by simp
  from resolveText_replaces_all_occurrences [where tx = ?t1 and x = "''c''" and P = ?P and as = "[]" and w = ?w]
  have "search ?t1 = Some (''$(anon '' @ ''c'' @ '')'', ''anon'', ''c'') \<longrightarrow>
        resolveText ?P [] ?t1 ?w =
        resolveText ?P []
          (join (''c'' @ ''-'' @ str_nat (randint ?P (draws ?w) mod 1000)) (split ?t1 (''$(anon '' @ ''c'' @ '')'')))
          (?w\<lparr>draws := Suc (draws ?w)\<rparr>)"
    by blast
  with s1 have "resolveText ?P [] ?t1 ?w =
        resolveText ?P []
          (join (''c'' @ ''-'' @ str_nat (randint ?P (draws ?w) mod 1000)) (split ?t1 (''$(anon '' @ ''c'' @ '')'')))
          (?w\<lparr>draws := Suc (draws ?w)\<rparr>)" by blast
  then have B: "resolveText ?P [] ?t1 ?w = resolveText ?P [] ''/opt/p/c-42/c-42'' ?w2"
    by (simp only: sp) (simp add: n)
  have C: "resolveText ?P [] ''/opt/p/c-42/c-42'' ?w2 = Some (Inr ''/opt/p/c-42/c-42'', ?w2)"
    by (simp add: resolveText.simps match_here_def)
  have h: "\<forall>s\<in>set (''a '' # '' b '' # ['''']). CHR ''$'' \<notin> set s" by simp
  have x: "''cam'' \<noteq> [] \<and> list_all argchar ''cam''" by (simp add: argchar_def)
  from resolveText_replaces_all_occurrences [where ?s0.0 = "''a ''" and ?s1.0 = "'' b ''" and ss = "['''']" and P = ?P and as = "[]" and w = ?w]
  have "(\<forall>s\<in>set (''a '' # '' b '' # ['''']). CHR ''$'' \<notin> set s) \<longrightarrow>
        (''cam'' \<noteq> [] \<and> list_all argchar ''cam'' \<longrightarrow>
        resolveText ?P [] (join (''$(anon '' @ ''cam'' @ '')'') (''a '' # '' b '' # [''''])) ?w =
        Some (Inr (join (''cam'' @ ''-'' @ str_nat (randint ?P (draws ?w) mod 1000))
                     (''a '' # '' b '' # [''''])),
              ?w\<lparr>draws := Suc (draws ?w)\<rparr>))"
    by blast
  with h x n have D: "resolveText ?P [] ''a $(anon cam) b $(anon cam)'' ?w =
      Some (Inr ''a cam-42 b cam-42'', ?w2)" by simp
  from A B C D show ?thesis by simp
qed

text \<open>
  Claim C2 (the program differs). \<open>$(env NAME)\<close> never yields the value of the
  variable: the handler raises NameError for the unbound name \<open>arg\<close> whatever
  the environment holds. Here \<open>HOME\<close> is set to \<open>/root\<close>.
\<close>

theorem env_of_set_variable_raises_NameError:
  "resolveText
     \<lparr>files = (\<lambda>f. Missing), rospack = (\<lambda>p. p), environ = [''HOME'' \<mapsto> ''/root''], randint = (\<lambda>i. i)\<rparr>
     [] ''$(env HOME)'' \<lparr>visited = {}, draws = 0\<rparr>
   = Some (Inl (NameError ''arg''), \<lparr>visited = {}, draws = 0\<rparr>)"
  by (simp add: resolveText.simps match_here_def kwchar_def argchar_def substitutionArgFnMap_def
      onEnvSubstitutionArg_def)

text \<open>
  Claim C3 (the program differs). The pattern admits no space inside the
  argument, so \<open>$(optenv NAME D)\<close> is not an expression for the resolver and
  stays in the text; and the handler, given a name and a default, raises
  NameError for the unbound name \<open>defaultValue\<close>. Here \<open>ROBOT\<close> is not set.
\<close>

theorem optenv_default_is_not_substituted:
  "resolveText
     \<lparr>files = (\<lambda>f. Missing), rospack = (\<lambda>p. p), environ = Map.empty, randint = (\<lambda>i. i)\<rparr>
     [] ''$(optenv ROBOT pr2)'' \<lparr>visited = {}, draws = 0\<rparr>
   = Some (Inr ''$(optenv ROBOT pr2)'', \<lparr>visited = {}, draws = 0\<rparr>) \<and>
   onEnvSubstitutionArg
     \<lparr>files = (\<lambda>f. Missing), rospack = (\<lambda>p. p), environ = Map.empty, randint = (\<lambda>i. i)\<rparr>
     ''ROBOT pr2'' \<lparr>visited = {}, draws = 0\<rparr>
   = (Inl (NameError ''defaultValue''), \<lparr>visited = {}, draws = 0\<rparr>)"
  by (simp add: resolveText.simps match_here_def kwchar_def argchar_def onEnvSubstitutionArg_def)

section \<open>Properties of the flattened tree\<close>

lemma fold_insert_image: "fold (\<lambda>x s. insert (f x) s) xs A = f ` set xs \<union> A"
  by (induction xs arbitrary: A) auto

lemma self_in_all: "lf \<in> set (getAllLaunchFiles lf)"
  by (cases lf) simp

lemma include_in_all: "y \<in> set (getIncludes x) \<Longrightarrow> set (getAllLaunchFiles y) \<subseteq> set (getAllLaunchFiles x)"
  by (cases x) auto

lemma all_trans: "x \<in> set (getAllLaunchFiles lf) \<Longrightarrow> set (getAllLaunchFiles x) \<subseteq> set (getAllLaunchFiles lf)"
proof (induction lf)
  case (LaunchFile f m a incs cs ns)
  show ?case
  proof (cases "x = LaunchFile f m a incs cs ns")
    case True then show ?thesis by simp
  next
    case False
    with LaunchFile.prems obtain i where i: "i \<in> set incs" "x \<in> set (getAllLaunchFiles i)" by auto
    with LaunchFile.IH[of i] have "set (getAllLaunchFiles x) \<subseteq> set (getAllLaunchFiles i)" by simp
    with i show ?thesis by auto
  qed
qed

lemma reachable_trans: "x \<in> reachable y \<Longrightarrow> y \<in> reachable z \<Longrightarrow> x \<in> reachable z"
  by (induction rule: reachable.induct) (auto intro: reachable.step)

lemma reachable_eq: "reachable lf = set (getAllLaunchFiles lf)"
proof
  show "reachable lf \<subseteq> set (getAllLaunchFiles lf)"
  proof
    fix x assume "x \<in> reachable lf"
    then show "x \<in> set (getAllLaunchFiles lf)"
    proof (induction rule: reachable.induct)
      case root show ?case by (rule self_in_all)
    next
      case (step x y)
      have "y \<in> set (getAllLaunchFiles x)" using include_in_all[OF step.hyps(2)] self_in_all[of y] by auto
      with all_trans[OF step.IH] show ?case by auto
    qed
  qed
next
  show "set (getAllLaunchFiles lf) \<subseteq> reachable lf"
  proof
    fix x assume "x \<in> set (getAllLaunchFiles lf)"
    then show "x \<in> reachable lf"
    proof (induction lf)
      case (LaunchFile f m a incs cs ns)
      show ?case
      proof (cases "x = LaunchFile f m a incs cs ns")
        case True then show ?thesis by (simp add: reachable.root)
      next
        case False
        with LaunchFile.prems obtain i where i: "i \<in> set incs" "x \<in> set (getAllLaunchFiles i)" by auto
        with LaunchFile.IH[of i] have "x \<in> reachable i" by simp
        moreover have "i \<in> reachable (LaunchFile f m a incs cs ns)"
          using i(1) reachable.step[OF reachable.root, of i "LaunchFile f m a incs cs ns"] by simp
        ultimately show ?thesis by (rule reachable_trans)
      qed
    qed
  qed
qed

lemma getAllNodes_set: "set (getAllNodes lf) = (\<Union>x\<in>set (getAllLaunchFiles lf). set (getNodes x))"
  by (induction lf) auto

text \<open>
  Claim C7. The node count is the number of distinct (package, type, name)
  triples among the nodes of all launch files reachable from the root: a triple
  declared again, in the same file or along another inclusion path, adds nothing.
\<close>

theorem getNumNodes_counts_distinct_triples:
  "getNumNodes lf = card (triple ` (\<Union>x\<in>reachable lf. set (getNodes x)))"
proof -
  have "fold (\<lambda>node uniqueNodes. insert (package node, nodeType node, name node) uniqueNodes) (getAllNodes lf) {}
        = triple ` set (getAllNodes lf)"
    using fold_insert_image[of triple "getAllNodes lf" "{}"] by (simp add: triple_def[abs_def])
  then show ?thesis by (simp add: getNumNodes_def getAllNodes_set reachable_eq)
qed

theorem getNumNodes_counts_distinct_triples_witness:
  "length (getAllNodes
     (LaunchFile ''/r/launch/root.launch'' False []
        [LaunchFile ''/r/launch/a.launch'' False [] [] []
           [Node ''/r/launch/a.launch'' ''cam'' ''driver'' ''front'' False],
         LaunchFile ''/r/launch/b.launch'' False [] [] []
           [Node ''/r/launch/b.launch'' ''cam'' ''driver'' ''front'' False]]
        [] [])) = 2 \<and>
   card (triple ` (\<Union>x\<in>reachable
     (LaunchFile ''/r/launch/root.launch'' False []
        [LaunchFile ''/r/launch/a.launch'' False [] [] []
           [Node ''/r/launch/a.launch'' ''cam'' ''driver'' ''front'' False],
         LaunchFile ''/r/launch/b.launch'' False [] [] []
           [Node ''/r/launch/b.launch'' ''cam'' ''driver'' ''front'' False]]
        [] []). set (getNodes x))) = 1"
proof -
  let ?T = "LaunchFile ''/r/launch/root.launch'' False []
        [LaunchFile ''/r/launch/a.launch'' False [] [] []
           [Node ''/r/launch/a.launch'' ''cam'' ''driver'' ''front'' False],
         LaunchFile ''/r/launch/b.launch'' False [] [] []
           [Node ''/r/launch/b.launch'' ''cam'' ''driver'' ''front'' False]]
        [] []"
  have "getNumNodes ?T = 1" by (simp add: getNumNodes_def)
  with getNumNodes_counts_distinct_triples [of ?T] show ?thesis by simp
qed

section \<open>Properties of the parser\<close>

subsection \<open>Resolution leaves the visited set alone\<close>







subsection \<open>A launch file that includes itself\<close>




subsection \<open>Which errors leave the element loop\<close>

lemma parseLaunchElements_append:
  "parseLaunchElements P n (xs @ ys) st =
     (case parseLaunchElements P n xs st of
        None \<Rightarrow> None
      | Some (Inl e, st') \<Rightarrow> Some (Inl e, st')
      | Some (Inr u, st') \<Rightarrow> parseLaunchElements P n ys st')"
  by (induction xs arbitrary: st) (auto split: option.splits sum.splits prod.splits)

lemma arg_error_leaves_loop:
  assumes "tag a = ''arg''" "parseLaunchElements P n pre st = Some (Inr (), st1)"
    "parseArg P a st1 = Some (Inl e, st2)"
  shows "parseLaunchElements P n (pre @ a # post) st = Some (Inl e, st2)"
  using assms by (simp add: parseLaunchElements_append parseLaunchElement.simps)

lemma top_level_arg_error:
  assumes "files P f = Document root" "f \<notin> visited w" "children root = pre @ a # post"
    "tag a = ''arg''"
    "parseLaunchElements P n pre (LaunchFile f False [] [] [] [], w\<lparr>visited := insert f (visited w)\<rparr>)
       = Some (Inr (), st1)"
    "parseArg P a st1 = Some (Inl e, st2)"
  shows "LaunchFile_init P (Suc n) f w = Some (Inl e, snd st2)"
  using assms arg_error_leaves_loop[OF assms(4,5,6), of post]
  by (simp add: parseLaunchFile.simps)

lemma group_arg_error:
  assumes "tag g = ''group''" "isEnabled P (getArgs (fst st)) g (snd st) = Some (Inr True, w1)"
    "children g = pre @ a # post" "tag a = ''arg''"
    "parseLaunchElements P n pre (fst st, w1) = Some (Inr (), st1)"
    "parseArg P a st1 = Some (Inl e, st2)"
  shows "parseLaunchElements P (Suc n) (g # rest) st = parseLaunchElements P (Suc n) rest st2"
  using assms arg_error_leaves_loop[OF assms(4,5,6), of post]
  by (simp add: parseLaunchElement.simps)

lemma caught_error:
  assumes "tag el = ''include'' \<and> parseInclude P n el st = Some (Inl e, st') \<or>
           tag el = ''group'' \<and> parseGroup P n el st = Some (Inl e, st') \<or>
           tag el = ''node'' \<and> parseNode P el st = Some (Inl e, st') \<or>
           tag el = ''test'' \<and> parseTestNode P el st = Some (Inl e, st')"
  shows "parseLaunchElements P n (el # rest) st = parseLaunchElements P n rest st'"
  using assms by (auto simp: parseLaunchElement.simps)

lemma parseArg_missing_name:
  "map_of (attrib a) ''name'' = None \<Longrightarrow>
   parseArg P a st = Some (Inl (Exception ''Missing the name attribute''), st)"
  by (simp add: parseArg_def getAttribute_def)

lemma parseArg_missing_value:
  "map_of (attrib a) ''name'' = Some nm \<Longrightarrow> map_of (attrib a) ''value'' = None \<Longrightarrow>
   map_of (attrib a) ''default'' = None \<Longrightarrow>
   parseArg P a st =
     Some (Inl (Exception ''Argument must define either the default or the value attribute''), st)"
  by (simp add: parseArg_def getAttribute_def)

lemma parseArg_name_unresolved:
  "map_of (attrib a) ''name'' = Some nm \<Longrightarrow> argValue a = Some val \<Longrightarrow>
   resolveText P (getArgs (fst st)) nm (snd st) = Some (Inl e, w1) \<Longrightarrow>
   parseArg P a st = Some (Inl e, fst st, w1)"
  by (simp add: parseArg_def getAttribute_def argValue_def)

lemma parseArg_value_unresolved:
  "map_of (attrib a) ''name'' = Some nm \<Longrightarrow> argValue a = Some val \<Longrightarrow>
   resolveText P (getArgs (fst st)) nm (snd st) = Some (Inr nm', w1) \<Longrightarrow>
   resolveText P (getArgs (fst st)) val w1 = Some (Inl e, w2) \<Longrightarrow>
   parseArg P a st = Some (Inl e, fst st, w2)"
  by (simp add: parseArg_def getAttribute_def argValue_def)

lemma parseArg_ok:
  "map_of (attrib a) ''name'' = Some nm \<Longrightarrow> argValue a = Some val \<Longrightarrow>
   resolveText P (getArgs (fst st)) nm (snd st) = Some (Inr nm', w1) \<Longrightarrow>
   resolveText P (getArgs (fst st)) val w1 = Some (Inr val', w2) \<Longrightarrow>
   parseArg P a st = Some (Inr (), setArg nm' val' (fst st), w2)"
  by (simp add: parseArg_def getAttribute_def argValue_def)

lemma parseNode_missing_name:
  "isEnabled P (getArgs (fst st)) el (snd st) = Some (Inr True, w1) \<Longrightarrow>
   map_of (attrib el) ''pkg'' = Some pk \<Longrightarrow> map_of (attrib el) ''type'' = Some ty \<Longrightarrow>
   map_of (attrib el) ''name'' = None \<Longrightarrow>
   parseNode P el st = Some (Inl (Exception ''Missing the name attribute''), fst st, w1)"
  by (simp add: parseNode_def parseNodeLike_def getAttribute_def)

lemma parseNode_pkg_unresolved:
  "isEnabled P (getArgs (fst st)) el (snd st) = Some (Inr True, w1) \<Longrightarrow>
   map_of (attrib el) ''pkg'' = Some pk \<Longrightarrow> map_of (attrib el) ''type'' = Some ty \<Longrightarrow>
   map_of (attrib el) ''name'' = Some nm \<Longrightarrow>
   resolveText P (getArgs (fst st)) pk w1 = Some (Inl e, w2) \<Longrightarrow>
   parseNode P el st = Some (Inl e, fst st, w2)"
  by (simp add: parseNode_def parseNodeLike_def getAttribute_def resolve3_def)

text \<open>
  Claim C9 (amended). An error of an argument element that is a child of the root
  element leaves the element loop and is the result of the file's construction.
  An error of an argument element inside an enabled group ends the processing of
  that group only: the loop that holds the group goes on with the next element,
  in the state the failure left. An error of an include, group, node or test
  element skips that element: the loop goes on with the next one. An argument
  element without a name, or with neither a value nor a default, or whose name
  or value does not resolve, is such an error of \<open>__parseArg\<close>; a node element
  without a name, or whose package does not resolve, is such an error of
  \<open>__parseNode\<close>.
\<close>

theorem arg_error_is_fatal_at_top_level_only:
  "(files P f = Document root \<and> f \<notin> visited w \<and> children root = pre @ a # post \<and>
    tag a = ''arg'' \<and>
    parseLaunchElements P n pre
      (LaunchFile f False [] [] [] [], w\<lparr>visited := insert f (visited w)\<rparr>) = Some (Inr (), st1) \<and>
    parseArg P a st1 = Some (Inl e, st2)
    \<longrightarrow> LaunchFile_init P (Suc n) f w = Some (Inl e, snd st2)) \<and>
   (tag g = ''group'' \<and> isEnabled P (getArgs (fst st)) g (snd st) = Some (Inr True, w1) \<and>
    children g = pre @ a # post \<and> tag a = ''arg'' \<and>
    parseLaunchElements P n pre (fst st, w1) = Some (Inr (), st1) \<and>
    parseArg P a st1 = Some (Inl e, st2)
    \<longrightarrow> parseLaunchElements P (Suc n) (g # rest) st = parseLaunchElements P (Suc n) rest st2) \<and>
   (tag el = ''include'' \<and> parseInclude P n el st = Some (Inl e, st') \<or>
    tag el = ''group'' \<and> parseGroup P n el st = Some (Inl e, st') \<or>
    tag el = ''node'' \<and> parseNode P el st = Some (Inl e, st') \<or>
    tag el = ''test'' \<and> parseTestNode P el st = Some (Inl e, st')
    \<longrightarrow> parseLaunchElements P n (el # rest) st = parseLaunchElements P n rest st') \<and>
   (map_of (attrib a) ''name'' = None
    \<longrightarrow> parseArg P a st = Some (Inl (Exception ''Missing the name attribute''), st)) \<and>
   (map_of (attrib a) ''name'' = Some nm \<and> map_of (attrib a) ''value'' = None \<and>
    map_of (attrib a) ''default'' = None
    \<longrightarrow> parseArg P a st =
          Some (Inl (Exception ''Argument must define either the default or the value attribute''), st)) \<and>
   (map_of (attrib a) ''name'' = Some nm \<and> argValue a = Some val \<and>
    resolveText P (getArgs (fst st)) nm (snd st) = Some (Inl e, w1)
    \<longrightarrow> parseArg P a st = Some (Inl e, fst st, w1)) \<and>
   (map_of (attrib a) ''name'' = Some nm \<and> argValue a = Some val \<and>
    resolveText P (getArgs (fst st)) nm (snd st) = Some (Inr nm', w1) \<and>
    resolveText P (getArgs (fst st)) val w1 = Some (Inl e, w2)
    \<longrightarrow> parseArg P a st = Some (Inl e, fst st, w2)) \<and>
   (isEnabled P (getArgs (fst st)) el (snd st) = Some (Inr True, w1) \<and>
    map_of (attrib el) ''pkg'' = Some pk \<and> map_of (attrib el) ''type'' = Some ty \<and>
    map_of (attrib el) ''name'' = None
    \<longrightarrow> parseNode P el st = Some (Inl (Exception ''Missing the name attribute''), fst st, w1)) \<and>
   (isEnabled P (getArgs (fst st)) el (snd st) = Some (Inr True, w1) \<and>
    map_of (attrib el) ''pkg'' = Some pk \<and> map_of (attrib el) ''type'' = Some ty \<and>
    map_of (attrib el) ''name'' = Some nm \<and>
    resolveText P (getArgs (fst st)) pk w1 = Some (Inl e, w2)
    \<longrightarrow> parseNode P el st = Some (Inl e, fst st, w2))"
  apply (intro conjI)
  subgoal using top_level_arg_error [of P f root w pre a post n st1 e st2] by blast
  subgoal using group_arg_error [of g P st w1 pre a post n st1 e st2 rest] by blast
  subgoal using caught_error [of el P n st e st' rest] by blast
  subgoal using parseArg_missing_name [of a P st] by blast
  subgoal using parseArg_missing_value [of a nm P st] by blast
  subgoal using parseArg_name_unresolved [of a nm val P st e w1] by blast
  subgoal using parseArg_value_unresolved [of a nm val P st nm' w1 e w2] by blast
  subgoal using parseNode_missing_name [of P st el w1 pk ty] by blast
  subgoal using parseNode_pkg_unresolved [of P st el w1 pk ty nm e w2] by blast
  done

theorem arg_error_is_fatal_at_top_level_only_witness:
  "LaunchFile_init
     \<lparr>files = (\<lambda>f. if f = ''/p/launch/a.launch''
                   then Document (Element ''launch'' []
                          [Element ''node'' [(''pkg'', ''p''), (''type'', ''t'')] [],
                           Element ''arg'' [(''value'', ''v'')] [],
                           Element ''node'' [(''pkg'', ''p''), (''type'', ''t''), (''name'', ''n'')] []])
                   else Missing),
      rospack = (\<lambda>p. p), environ = Map.empty, randint = (\<lambda>i. i)\<rparr>
     (Suc 0) ''/p/launch/a.launch'' \<lparr>visited = {}, draws = 0\<rparr> =
   Some (Inl (Exception ''Missing the name attribute''),
         \<lparr>visited = {''/p/launch/a.launch''}, draws = 0\<rparr>) \<and>
   parseLaunchElements
     \<lparr>files = (\<lambda>f. Missing), rospack = (\<lambda>p. p), environ = Map.empty, randint = (\<lambda>i. i)\<rparr>
     (Suc 0)
     [Element ''group'' [] [Element ''arg'' [(''value'', ''v'')] []],
      Element ''node'' [(''pkg'', ''p''), (''type'', ''t''), (''name'', ''n'')] []]
     (LaunchFile ''/p/launch/a.launch'' False [] [] [] [], \<lparr>visited = {}, draws = 0\<rparr>) =
   Some (Inr (), LaunchFile ''/p/launch/a.launch'' False [] [] []
                   [Node ''/p/launch/a.launch'' ''p'' ''t'' ''n'' False],
         \<lparr>visited = {}, draws = 0\<rparr>) \<and>
   parseLaunchElements
     \<lparr>files = (\<lambda>f. Missing), rospack = (\<lambda>p. p), environ = Map.empty, randint = (\<lambda>i. i)\<rparr>
     0
     [Element ''node'' [(''pkg'', ''p''), (''type'', ''t'')] [],
      Element ''node'' [(''pkg'', ''p''), (''type'', ''t''), (''name'', ''n'')] []]
     (LaunchFile ''/p/launch/a.launch'' False [] [] [] [], \<lparr>visited = {}, draws = 0\<rparr>) =
   Some (Inr (), LaunchFile ''/p/launch/a.launch'' False [] [] []
                   [Node ''/p/launch/a.launch'' ''p'' ''t'' ''n'' False],
         \<lparr>visited = {}, draws = 0\<rparr>) \<and>
   LaunchFile_init
     \<lparr>files = (\<lambda>f. if f = ''/p/launch/a.launch''
                   then Document (Element ''launch'' []
                          [Element ''arg'' [(''name'', ''x''), (''value'', ''$(arg undefined)'')] [],
                           Element ''node'' [(''pkg'', ''p''), (''type'', ''t''), (''name'', ''n'')] []])
                   else Missing),
      rospack = (\<lambda>p. p), environ = Map.empty, randint = (\<lambda>i. i)\<rparr>
     (Suc 0) ''/p/launch/a.launch'' \<lparr>visited = {}, draws = 0\<rparr> =
   Some (Inl (Exception (''Could not resolve unknown arg: '' @ [CHR 0x27] @ ''undefined'' @ [CHR 0x27])),
         \<lparr>visited = {''/p/launch/a.launch''}, draws = 0\<rparr>)"
proof -
  let ?n1 = "Element ''node'' [(''pkg'', ''p''), (''type'', ''t'')] []"
  let ?a = "Element ''arg'' [(''value'', ''v'')] []"
  let ?n2 = "Element ''node'' [(''pkg'', ''p''), (''type'', ''t''), (''name'', ''n'')] []"
  let ?g = "Element ''group'' [] [?a]"
  let ?root = "Element ''launch'' [] [?n1, ?a, ?n2]"
  let ?P = "\<lparr>files = (\<lambda>f. if f = ''/p/launch/a.launch'' then Document ?root else Missing),
      rospack = (\<lambda>p. p), environ = Map.empty, randint = (\<lambda>i. i)\<rparr>"
  let ?Q = "\<lparr>files = (\<lambda>f. Missing), rospack = (\<lambda>p. p), environ = Map.empty, randint = (\<lambda>i. i)\<rparr>"
  let ?w = "\<lparr>visited = {}, draws = 0\<rparr>"
  let ?self = "LaunchFile ''/p/launch/a.launch'' False [] [] [] []"
  let ?st1 = "(?self, \<lparr>visited = {''/p/launch/a.launch''}, draws = 0\<rparr>)"
  let ?e = "Exception ''Missing the name attribute''"
  let ?e2 = "Exception ''Missing the name attribute''"
  have 1: "files ?P ''/p/launch/a.launch'' = Document ?root" by simp
  have 2: "''/p/launch/a.launch'' \<notin> visited ?w" by simp
  have 3: "children ?root = [?n1] @ ?a # [?n2]" by simp
  have 4: "tag ?a = ''arg''" by simp
  have 5: "parseLaunchElements ?P 0 [?n1]
      (?self, ?w\<lparr>visited := insert ''/p/launch/a.launch'' (visited ?w)\<rparr>) = Some (Inr (), ?st1)"
    by (simp add: parseLaunchElement.simps parseNode_def parseNodeLike_def isEnabled_def
        isEnabled_unless_def getAttribute_def)
  have 6: "parseArg ?P ?a ?st1 = Some (Inl ?e, ?st1)"
    by (simp add: parseArg_def getAttribute_def)
  from arg_error_is_fatal_at_top_level_only
    [of ?P "''/p/launch/a.launch''" ?root ?w "[?n1]" ?a "[?n2]" 0 ?st1 ?e ?st1]
  have "files ?P ''/p/launch/a.launch'' = Document ?root \<and> ''/p/launch/a.launch'' \<notin> visited ?w \<and>
        children ?root = [?n1] @ ?a # [?n2] \<and> tag ?a = ''arg'' \<and>
        parseLaunchElements ?P 0 [?n1]
          (?self, ?w\<lparr>visited := insert ''/p/launch/a.launch'' (visited ?w)\<rparr>) = Some (Inr (), ?st1) \<and>
        parseArg ?P ?a ?st1 = Some (Inl ?e, ?st1)
        \<longrightarrow> LaunchFile_init ?P (Suc 0) ''/p/launch/a.launch'' ?w = Some (Inl ?e, snd ?st1)"
    by (rule conjunct1)
  with 1 2 3 4 5 6 have A: "LaunchFile_init ?P (Suc 0) ''/p/launch/a.launch'' ?w =
      Some (Inl ?e, \<lparr>visited = {''/p/launch/a.launch''}, draws = 0\<rparr>)" by simp
  have rest: "parseLaunchElements ?Q k [?n2] (?self, ?w) =
      Some (Inr (), LaunchFile ''/p/launch/a.launch'' False [] [] []
                      [Node ''/p/launch/a.launch'' ''p'' ''t'' ''n'' False], ?w)" for k
    by (simp add: parseLaunchElement.simps parseNode_def parseNodeLike_def resolve3_def
        isEnabled_def isEnabled_unless_def getAttribute_def resolveText.simps match_here_def
        appendNode_def)
  have g1: "tag ?g = ''group''" by simp
  have g2: "isEnabled ?Q (getArgs (fst (?self, ?w))) ?g (snd (?self, ?w)) = Some (Inr True, ?w)"
    by (simp add: isEnabled_def isEnabled_unless_def)
  have g3: "children ?g = [] @ ?a # []" by simp
  have g5: "parseLaunchElements ?Q 0 [] (fst (?self, ?w), ?w) = Some (Inr (), (?self, ?w))" by simp
  have g6: "parseArg ?Q ?a (?self, ?w) = Some (Inl ?e, (?self, ?w))"
    by (simp add: parseArg_def getAttribute_def)
  from arg_error_is_fatal_at_top_level_only
    [where P = ?Q and g = ?g and st = "(?self, ?w)" and ?w1.0 = ?w and pre = "[]" and a = ?a
       and post = "[]" and n = 0 and ?st1.0 = "(?self, ?w)" and e = ?e and ?st2.0 = "(?self, ?w)"
       and rest = "[?n2]"]
  have "tag ?g = ''group'' \<and>
        isEnabled ?Q (getArgs (fst (?self, ?w))) ?g (snd (?self, ?w)) = Some (Inr True, ?w) \<and>
        children ?g = [] @ ?a # [] \<and> tag ?a = ''arg'' \<and>
        parseLaunchElements ?Q 0 [] (fst (?self, ?w), ?w) = Some (Inr (), (?self, ?w)) \<and>
        parseArg ?Q ?a (?self, ?w) = Some (Inl ?e, (?self, ?w))
        \<longrightarrow> parseLaunchElements ?Q (Suc 0) (?g # [?n2]) (?self, ?w) =
              parseLaunchElements ?Q (Suc 0) [?n2] (?self, ?w)"
    by blast
  with g1 g2 g3 4 g5 g6 rest [of "Suc 0"] have B: "parseLaunchElements ?Q (Suc 0) [?g, ?n2] (?self, ?w) =
      Some (Inr (), LaunchFile ''/p/launch/a.launch'' False [] [] []
                      [Node ''/p/launch/a.launch'' ''p'' ''t'' ''n'' False], ?w)"
    by simp
  have n1: "parseNode ?Q ?n1 (?self, ?w) = Some (Inl ?e2, (?self, ?w))"
    by (simp add: parseNode_def parseNodeLike_def isEnabled_def isEnabled_unless_def getAttribute_def)
  from arg_error_is_fatal_at_top_level_only
    [where P = ?Q and el = ?n1 and st = "(?self, ?w)" and n = 0 and e = ?e2 and st' = "(?self, ?w)"
       and rest = "[?n2]"]
  have "tag ?n1 = ''node'' \<and> parseNode ?Q ?n1 (?self, ?w) = Some (Inl ?e2, (?self, ?w))
        \<longrightarrow> parseLaunchElements ?Q 0 (?n1 # [?n2]) (?self, ?w) =
              parseLaunchElements ?Q 0 [?n2] (?self, ?w)"
    by blast
  with n1 rest [of 0] have C: "parseLaunchElements ?Q 0 [?n1, ?n2] (?self, ?w) =
      Some (Inr (), LaunchFile ''/p/launch/a.launch'' False [] [] []
                      [Node ''/p/launch/a.launch'' ''p'' ''t'' ''n'' False], ?w)"
    by simp

  let ?a3 = "Element ''arg'' [(''name'', ''x''), (''value'', ''$(arg undefined)'')] []"
  let ?root3 = "Element ''launch'' [] [?a3, ?n2]"
  let ?P3 = "\<lparr>files = (\<lambda>f. if f = ''/p/launch/a.launch'' then Document ?root3 else Missing),
      rospack = (\<lambda>p. p), environ = Map.empty, randint = (\<lambda>i. i)\<rparr>"
  let ?w1 = "\<lparr>visited = {''/p/launch/a.launch''}, draws = 0\<rparr>"
  let ?e3 = "Exception (''Could not resolve unknown arg: '' @ [CHR 0x27] @ ''undefined'' @ [CHR 0x27])"
  have d1: "map_of (attrib ?a3) ''name'' = Some ''x''" by simp
  have d2: "argValue ?a3 = Some ''$(arg undefined)''" by (simp add: argValue_def)
  have d3: "resolveText ?P3 (getArgs (fst (?self, ?w1))) ''x'' (snd (?self, ?w1)) = Some (Inr ''x'', ?w1)"
    by (simp add: resolveText.simps match_here_def)
  have d4: "resolveText ?P3 (getArgs (fst (?self, ?w1))) ''$(arg undefined)'' ?w1 = Some (Inl ?e3, ?w1)"
    by (simp add: resolveText.simps match_here_def kwchar_def argchar_def substitutionArgFnMap_def
        onArgSubstitutionArg_def)
  from arg_error_is_fatal_at_top_level_only
    [where P = ?P3 and a = ?a3 and st = "(?self, ?w1)" and nm = "''x''" and val = "''$(arg undefined)''"
       and nm' = "''x''" and ?w1.0 = ?w1 and e = ?e3 and ?w2.0 = ?w1,
     THEN conjunct2, THEN conjunct2, THEN conjunct2, THEN conjunct2, THEN conjunct2,
     THEN conjunct2, THEN conjunct1]
  have "map_of (attrib ?a3) ''name'' = Some ''x'' \<and> argValue ?a3 = Some ''$(arg undefined)'' \<and>
        resolveText ?P3 (getArgs (fst (?self, ?w1))) ''x'' (snd (?self, ?w1)) = Some (Inr ''x'', ?w1) \<and>
        resolveText ?P3 (getArgs (fst (?self, ?w1))) ''$(arg undefined)'' ?w1 = Some (Inl ?e3, ?w1)
        \<longrightarrow> parseArg ?P3 ?a3 (?self, ?w1) = Some (Inl ?e3, fst (?self, ?w1), ?w1)"
    .
  with d1 d2 d3 d4 have pa: "parseArg ?P3 ?a3 (?self, ?w1) = Some (Inl ?e3, (?self, ?w1))" by simp
  from arg_error_is_fatal_at_top_level_only
    [where P = ?P3 and f = "''/p/launch/a.launch''" and root = ?root3 and w = ?w and pre = "[]"
       and a = ?a3 and post = "[?n2]" and n = 0 and ?st1.0 = "(?self, ?w1)" and e = ?e3
       and ?st2.0 = "(?self, ?w1)"]
  have "files ?P3 ''/p/launch/a.launch'' = Document ?root3 \<and> ''/p/launch/a.launch'' \<notin> visited ?w \<and>
        children ?root3 = [] @ ?a3 # [?n2] \<and> tag ?a3 = ''arg'' \<and>
        parseLaunchElements ?P3 0 []
          (?self, ?w\<lparr>visited := insert ''/p/launch/a.launch'' (visited ?w)\<rparr>) = Some (Inr (), (?self, ?w1)) \<and>
        parseArg ?P3 ?a3 (?self, ?w1) = Some (Inl ?e3, (?self, ?w1))
        \<longrightarrow> LaunchFile_init ?P3 (Suc 0) ''/p/launch/a.launch'' ?w = Some (Inl ?e3, snd (?self, ?w1))"
    by (rule conjunct1)
  with pa have D: "LaunchFile_init ?P3 (Suc 0) ''/p/launch/a.launch'' ?w = Some (Inl ?e3, ?w1)" by simp
  from A B C D show ?thesis by (intro conjI)
qed

text \<open>
  The claim as worded, for an argument element anywhere in the file, fails when
  the element sits in a group: the \<open>except:\<close> around \<open>__parseGroup\<close> catches
  its exception, and the file is constructed, with the node that follows the group.
\<close>

theorem arg_error_inside_group_does_not_fail_the_file:
  "LaunchFile_init
     \<lparr>files = (\<lambda>f. if f = ''/p/launch/a.launch''
                   then Document (Element ''launch'' []
                          [Element ''group'' [] [Element ''arg'' [(''value'', ''v'')] []],
                           Element ''node'' [(''pkg'', ''p''), (''type'', ''t''), (''name'', ''n'')] []])
                   else Missing),
      rospack = (\<lambda>p. p), environ = Map.empty, randint = (\<lambda>i. i)\<rparr>
     (Suc (Suc 0)) ''/p/launch/a.launch'' \<lparr>visited = {}, draws = 0\<rparr> =
   Some (Inr (LaunchFile ''/p/launch/a.launch'' False [] [] []
                [Node ''/p/launch/a.launch'' ''p'' ''t'' ''n'' False]),
         \<lparr>visited = {''/p/launch/a.launch''}, draws = 0\<rparr>)"
  by (simp add: parseLaunchFile.simps parseLaunchElement.simps parseArg_def
      parseNode_def parseNodeLike_def resolve3_def isEnabled_def isEnabled_unless_def
      getAttribute_def resolveText.simps match_here_def appendNode_def)

subsection \<open>The enable predicate\<close>

lemma mem_truthy: "(lower v \<in> set [''true'', ''1'']) = truthy v"
  by (auto simp: truthy_def)

lemma mem_falsy: "(lower v \<in> set [''false'', ''0'']) = falsy v"
  by (auto simp: falsy_def)

lemma not_truthy_and_falsy: "truthy v \<Longrightarrow> \<not> falsy v"
  by (auto simp: truthy_def falsy_def)

lemma isEnabled_unless_cases:
  assumes "attr_resolves P as el ''unless'' w uv w'"
  shows "isEnabled_unless P as el w =
           (case uv of
              None \<Rightarrow> Some (Inr True, w')
            | Some y \<Rightarrow>
                if truthy y then Some (Inr False, w')
                else if falsy y then Some (Inr True, w')
                else Some (Inl (Exception (''Invalid value in unless attribute: '' @ y)), w'))"
  using assms
  by (auto simp: attr_resolves_def isEnabled_unless_def mem_truthy mem_falsy
      simp del: set_simps split: option.splits)

lemma isEnabled_if_cases:
  assumes "attr_resolves P as el ''if'' w iv w1"
  shows "isEnabled P as el w =
           (case iv of
              None \<Rightarrow> isEnabled_unless P as el w1
            | Some x \<Rightarrow>
                if falsy x then Some (Inr False, w1)
                else if truthy x then isEnabled_unless P as el w1
                else Some (Inl (Exception (''Invalid value in if attribute: '' @ x)), w1))"
  using assms
  by (auto simp: attr_resolves_def isEnabled_def mem_truthy mem_falsy
      simp del: set_simps split: option.splits)

lemma not_enabled_skips:
  assumes t: "tag el \<in> {''include'', ''group'', ''node'', ''test''}"
    and e: "isEnabled P (getArgs self) el w = Some (r, w')" and r: "r \<noteq> Inr True"
  shows "parseLaunchElement P (Suc n) el (self, w) = Some (Inr (), self, w')"
proof -
  from r have c: "(\<exists>e. r = Inl e) \<or> r = Inr False" by (cases r) auto
  have i: "tag el = ''include'' \<Longrightarrow> ?thesis"
    using e c by (auto simp: parseLaunchElement.simps parseInclude.simps resolveInclude_def)
  have g: "tag el = ''group'' \<Longrightarrow> ?thesis"
    using e c by (auto simp: parseLaunchElement.simps)
  have n: "tag el = ''node'' \<Longrightarrow> ?thesis"
    using e c by (auto simp: parseLaunchElement.simps parseNode_def parseNodeLike_def)
  have s: "tag el = ''test'' \<Longrightarrow> ?thesis"
    using e c by (auto simp: parseLaunchElement.simps parseTestNode_def parseNodeLike_def)
  from t i g n s show ?thesis by auto
qed

lemma enabled_node_like:
  assumes "isEnabled P (getArgs self) el w = Some (Inr True, w1)"
    "map_of (attrib el) ''pkg'' = Some pk" "map_of (attrib el) ''type'' = Some ty"
    "map_of (attrib el) nameAttribute = Some nm"
    "resolveText P (getArgs self) pk w1 = Some (Inr pk', wa)"
    "resolveText P (getArgs self) ty wa = Some (Inr ty', wb)"
    "resolveText P (getArgs self) nm wb = Some (Inr nm', wc)"
  shows "parseNodeLike nameAttribute isTest P el (self, w) =
           Some (Inr (Some (Node (getFilename self) pk' ty' nm' isTest)), self, wc)"
  using assms by (simp add: parseNodeLike_def getAttribute_def resolve3_def)

lemma enabled_node:
  assumes "tag el = ''node''" "isEnabled P (getArgs self) el w = Some (Inr True, w1)"
    "map_of (attrib el) ''pkg'' = Some pk" "map_of (attrib el) ''type'' = Some ty"
    "map_of (attrib el) ''name'' = Some nm"
    "resolveText P (getArgs self) pk w1 = Some (Inr pk', wa)"
    "resolveText P (getArgs self) ty wa = Some (Inr ty', wb)"
    "resolveText P (getArgs self) nm wb = Some (Inr nm', wc)"
  shows "parseLaunchElement P k el (self, w) =
           Some (Inr (), appendNode (Node (getFilename self) pk' ty' nm' False) self, wc)"
  using assms(1) enabled_node_like[OF assms(2-8), of False]
  by (simp add: parseLaunchElement.simps parseNode_def)

lemma enabled_test:
  assumes "tag el = ''test''" "isEnabled P (getArgs self) el w = Some (Inr True, w1)"
    "map_of (attrib el) ''pkg'' = Some pk" "map_of (attrib el) ''type'' = Some ty"
    "map_of (attrib el) ''test-name'' = Some nm"
    "resolveText P (getArgs self) pk w1 = Some (Inr pk', wa)"
    "resolveText P (getArgs self) ty wa = Some (Inr ty', wb)"
    "resolveText P (getArgs self) nm wb = Some (Inr nm', wc)"
  shows "parseLaunchElement P k el (self, w) =
           Some (Inr (), appendNode (Node (getFilename self) pk' ty' nm' True) self, wc)"
  using assms(1) enabled_node_like[OF assms(2-8), of True]
  by (simp add: parseLaunchElement.simps parseTestNode_def)

lemma enabled_include:
  assumes "tag el = ''include''" "isEnabled P (getArgs self) el w = Some (Inr True, w1)"
    "map_of (attrib el) ''file'' = Some fl"
    "resolveText P (getArgs self) fl w1 = Some (Inr resolved, w2)"
    "LaunchFile_init P k resolved w2 = Some (Inr included, w3)"
  shows "parseLaunchElement P k el (self, w) =
           Some (Inr (),
                 appendInclude included
                   (if resolved \<in> visited w2 then appendCycle resolved self else self), w3)"
  using assms
  by (simp add: parseLaunchElement.simps parseInclude.simps resolveInclude_def getAttribute_def
      del: LaunchFile_init.simps)

lemma enabled_group:
  assumes "tag el = ''group''" "isEnabled P (getArgs self) el w = Some (Inr True, w1)"
    "parseLaunchElements P k (children el) (self, w1) = Some (r, st')"
  shows "parseLaunchElement P (Suc k) el (self, w) = Some (Inr (), st')"
  using assms by (simp add: parseLaunchElement.simps)

lemma enable_predicate_values:
  "(attr_resolves P as el ''if'' w iv w1 \<and> attr_resolves P as el ''unless'' w1 uv w2 \<and>
    unset_or truthy iv \<longrightarrow>
      (unset_or falsy uv \<longrightarrow> isEnabled P as el w = Some (Inr True, w2)) \<and>
      (\<forall>y. uv = Some y \<and> truthy y \<longrightarrow> isEnabled P as el w = Some (Inr False, w2)) \<and>
      (\<forall>y. uv = Some y \<and> \<not> truthy y \<and> \<not> falsy y \<longrightarrow>
         isEnabled P as el w =
           Some (Inl (Exception (''Invalid value in unless attribute: '' @ y)), w2))) \<and>
   (attr_resolves P as el ''if'' w (Some x) w1 \<longrightarrow>
      (falsy x \<longrightarrow> isEnabled P as el w = Some (Inr False, w1)) \<and>
      (\<not> falsy x \<and> \<not> truthy x \<longrightarrow>
         isEnabled P as el w =
           Some (Inl (Exception (''Invalid value in if attribute: '' @ x)), w1))) \<and>
   (tag el \<in> {''include'', ''group'', ''node'', ''test''} \<and>
    isEnabled P (getArgs self) el w = Some (r, w') \<and> r \<noteq> Inr True \<longrightarrow>
      parseLaunchElement P (Suc n) el (self, w) = Some (Inr (), self, w') \<and>
      parseLaunchElements P (Suc n) (el # rest) (self, w) =
        parseLaunchElements P (Suc n) rest (self, w'))"
proof (intro conjI impI allI)
  assume a: "attr_resolves P as el ''if'' w iv w1 \<and> attr_resolves P as el ''unless'' w1 uv w2 \<and>
    unset_or truthy iv"
  then have i: "isEnabled P as el w = isEnabled_unless P as el w1"
    using isEnabled_if_cases[of P as el w iv w1] not_truthy_and_falsy
    by (auto simp: unset_or_def split: option.splits)
  note u = isEnabled_unless_cases[of P as el w1 uv w2]
  { assume "unset_or falsy uv"
    with a i u show "isEnabled P as el w = Some (Inr True, w2)"
      using not_truthy_and_falsy by (auto simp: unset_or_def split: option.splits) }
  { fix y assume "uv = Some y \<and> truthy y"
    with a i u show "isEnabled P as el w = Some (Inr False, w2)" by auto }
  { fix y assume "uv = Some y \<and> \<not> truthy y \<and> \<not> falsy y"
    with a i u show "isEnabled P as el w =
           Some (Inl (Exception (''Invalid value in unless attribute: '' @ y)), w2)" by auto }
next
  assume a: "attr_resolves P as el ''if'' w (Some x) w1"
  note c = isEnabled_if_cases[OF a]
  { assume "falsy x" with c show "isEnabled P as el w = Some (Inr False, w1)" by simp }
  { assume "\<not> falsy x \<and> \<not> truthy x"
    with c show "isEnabled P as el w =
           Some (Inl (Exception (''Invalid value in if attribute: '' @ x)), w1)" by simp }
next
  assume a: "tag el \<in> {''include'', ''group'', ''node'', ''test''} \<and>
    isEnabled P (getArgs self) el w = Some (r, w') \<and> r \<noteq> Inr True"
  then show s: "parseLaunchElement P (Suc n) el (self, w) = Some (Inr (), self, w')"
    using not_enabled_skips[of el P self w r w' n] by blast
  then show "parseLaunchElements P (Suc n) (el # rest) (self, w) =
        parseLaunchElements P (Suc n) rest (self, w')" by simp
qed

text \<open>
  Claim C6 (amended). For an include, group, node or test element: the \<open>if\<close>
  attribute, when present, is resolved and its value compared, lower-cased, with
  \<open>false\<close>, \<open>0\<close> and \<open>true\<close>, \<open>1\<close>; a falsy value disables the
  element at once, any other value that is not truthy raises the exception
  "Invalid value in if attribute"; the \<open>unless\<close> attribute is resolved and
  compared only after that, in the same way with the roles of the literals
  exchanged. The element is enabled when \<open>if\<close> is truthy or absent and
  \<open>unless\<close> is falsy or absent. A disabled element and an element whose
  predicate raised leave \<open>self\<close> as it was, and the loop goes on with the next
  element. An enabled element is processed: a node or test element whose three
  attributes resolve is appended to the nodes of \<open>self\<close>, an include element
  whose file resolves appends the launch file constructed for it to the includes
  of \<open>self\<close>, and the children of a group element are parsed.
\<close>

theorem enable_predicate_gates_elements:
  "(attr_resolves P as el ''if'' w iv w1 \<and> attr_resolves P as el ''unless'' w1 uv w2 \<and>
    unset_or truthy iv \<longrightarrow>
      (unset_or falsy uv \<longrightarrow> isEnabled P as el w = Some (Inr True, w2)) \<and>
      (\<forall>y. uv = Some y \<and> truthy y \<longrightarrow> isEnabled P as el w = Some (Inr False, w2)) \<and>
      (\<forall>y. uv = Some y \<and> \<not> truthy y \<and> \<not> falsy y \<longrightarrow>
         isEnabled P as el w =
           Some (Inl (Exception (''Invalid value in unless attribute: '' @ y)), w2))) \<and>
   (attr_resolves P as el ''if'' w (Some x) w1 \<longrightarrow>
      (falsy x \<longrightarrow> isEnabled P as el w = Some (Inr False, w1)) \<and>
      (\<not> falsy x \<and> \<not> truthy x \<longrightarrow>
         isEnabled P as el w =
           Some (Inl (Exception (''Invalid value in if attribute: '' @ x)), w1))) \<and>
   (tag el \<in> {''include'', ''group'', ''node'', ''test''} \<and>
    isEnabled P (getArgs self) el w = Some (r, w') \<and> r \<noteq> Inr True \<longrightarrow>
      parseLaunchElement P (Suc n) el (self, w) = Some (Inr (), self, w') \<and>
      parseLaunchElements P (Suc n) (el # rest) (self, w) =
        parseLaunchElements P (Suc n) rest (self, w')) \<and>
   (tag el = ''node'' \<and> isEnabled P (getArgs self) el w = Some (Inr True, w1) \<and>
    map_of (attrib el) ''pkg'' = Some pk \<and> map_of (attrib el) ''type'' = Some ty \<and>
    map_of (attrib el) ''name'' = Some nm \<and>
    resolveText P (getArgs self) pk w1 = Some (Inr pk', wa) \<and>
    resolveText P (getArgs self) ty wa = Some (Inr ty', wb) \<and>
    resolveText P (getArgs self) nm wb = Some (Inr nm', wc) \<longrightarrow>
      parseLaunchElement P k el (self, w) =
        Some (Inr (), appendNode (Node (getFilename self) pk' ty' nm' False) self, wc)) \<and>
   (tag el = ''test'' \<and> isEnabled P (getArgs self) el w = Some (Inr True, w1) \<and>
    map_of (attrib el) ''pkg'' = Some pk \<and> map_of (attrib el) ''type'' = Some ty \<and>
    map_of (attrib el) ''test-name'' = Some nm \<and>
    resolveText P (getArgs self) pk w1 = Some (Inr pk', wa) \<and>
    resolveText P (getArgs self) ty wa = Some (Inr ty', wb) \<and>
    resolveText P (getArgs self) nm wb = Some (Inr nm', wc) \<longrightarrow>
      parseLaunchElement P k el (self, w) =
        Some (Inr (), appendNode (Node (getFilename self) pk' ty' nm' True) self, wc)) \<and>
   (tag el = ''include'' \<and> isEnabled P (getArgs self) el w = Some (Inr True, w1) \<and>
    map_of (attrib el) ''file'' = Some fl \<and>
    resolveText P (getArgs self) fl w1 = Some (Inr resolved, w2) \<and>
    LaunchFile_init P k resolved w2 = Some (Inr included, w3) \<longrightarrow>
      parseLaunchElement P k el (self, w) =
        Some (Inr (),
              appendInclude included
                (if resolved \<in> visited w2 then appendCycle resolved self else self), w3)) \<and>
   (tag el = ''group'' \<and> isEnabled P (getArgs self) el w = Some (Inr True, w1) \<and>
    parseLaunchElements P k (children el) (self, w1) = Some (res, st') \<longrightarrow>
      parseLaunchElement P (Suc k) el (self, w) = Some (Inr (), st'))"
proof -
  note v = enable_predicate_values [of P as el w iv w1 uv w2 x self r w' n rest]
  have n1: "tag el = ''node'' \<and> isEnabled P (getArgs self) el w = Some (Inr True, w1) \<and>
    map_of (attrib el) ''pkg'' = Some pk \<and> map_of (attrib el) ''type'' = Some ty \<and>
    map_of (attrib el) ''name'' = Some nm \<and>
    resolveText P (getArgs self) pk w1 = Some (Inr pk', wa) \<and>
    resolveText P (getArgs self) ty wa = Some (Inr ty', wb) \<and>
    resolveText P (getArgs self) nm wb = Some (Inr nm', wc) \<longrightarrow>
      parseLaunchElement P k el (self, w) =
        Some (Inr (), appendNode (Node (getFilename self) pk' ty' nm' False) self, wc)"
    using enabled_node [of el P self w w1 pk ty nm pk' wa ty' wb nm' wc k] by blast
  have n2: "tag el = ''test'' \<and> isEnabled P (getArgs self) el w = Some (Inr True, w1) \<and>
    map_of (attrib el) ''pkg'' = Some pk \<and> map_of (attrib el) ''type'' = Some ty \<and>
    map_of (attrib el) ''test-name'' = Some nm \<and>
    resolveText P (getArgs self) pk w1 = Some (Inr pk', wa) \<and>
    resolveText P (getArgs self) ty wa = Some (Inr ty', wb) \<and>
    resolveText P (getArgs self) nm wb = Some (Inr nm', wc) \<longrightarrow>
      parseLaunchElement P k el (self, w) =
        Some (Inr (), appendNode (Node (getFilename self) pk' ty' nm' True) self, wc)"
    using enabled_test [of el P self w w1 pk ty nm pk' wa ty' wb nm' wc k] by blast
  have n3: "tag el = ''include'' \<and> isEnabled P (getArgs self) el w = Some (Inr True, w1) \<and>
    map_of (attrib el) ''file'' = Some fl \<and>
    resolveText P (getArgs self) fl w1 = Some (Inr resolved, w2) \<and>
    LaunchFile_init P k resolved w2 = Some (Inr included, w3) \<longrightarrow>
      parseLaunchElement P k el (self, w) =
        Some (Inr (),
              appendInclude included
                (if resolved \<in> visited w2 then appendCycle resolved self else self), w3)"
    using enabled_include [of el P self w w1 fl resolved w2 k included w3] by blast
  have n4: "tag el = ''group'' \<and> isEnabled P (getArgs self) el w = Some (Inr True, w1) \<and>
    parseLaunchElements P k (children el) (self, w1) = Some (res, st') \<longrightarrow>
      parseLaunchElement P (Suc k) el (self, w) = Some (Inr (), st')"
    using enabled_group [of el P self w w1 k res st'] by blast
  from v n1 n2 n3 n4 show ?thesis by (elim conjE) (intro conjI, assumption+)
qed

theorem enable_predicate_gates_elements_witness:
  "isEnabled \<lparr>files = (\<lambda>f. Missing), rospack = (\<lambda>p. p), environ = Map.empty, randint = (\<lambda>i. i)\<rparr> []
     (Element ''node'' [(''if'', ''True''), (''unless'', ''FALSE'')] [])
     \<lparr>visited = {}, draws = 0\<rparr> = Some (Inr True, \<lparr>visited = {}, draws = 0\<rparr>) \<and>
   parseLaunchElement \<lparr>files = (\<lambda>f. Missing), rospack = (\<lambda>p. p), environ = Map.empty, randint = (\<lambda>i. i)\<rparr>
     (Suc 0) (Element ''node'' [(''if'', ''maybe''), (''pkg'', ''p''), (''type'', ''t''), (''name'', ''n'')] [])
     (LaunchFile ''/p/launch/a.launch'' False [] [] [] [], \<lparr>visited = {}, draws = 0\<rparr>)
   = Some (Inr (), LaunchFile ''/p/launch/a.launch'' False [] [] [] [], \<lparr>visited = {}, draws = 0\<rparr>) \<and>
   parseLaunchElement \<lparr>files = (\<lambda>f. Missing), rospack = (\<lambda>p. p), environ = Map.empty, randint = (\<lambda>i. i)\<rparr>
     (Suc 0) (Element ''node'' [(''if'', ''True''), (''pkg'', ''p''), (''type'', ''t''), (''name'', ''n'')] [])
     (LaunchFile ''/p/launch/a.launch'' False [] [] [] [], \<lparr>visited = {}, draws = 0\<rparr>)
   = Some (Inr (), LaunchFile ''/p/launch/a.launch'' False [] [] []
                     [Node ''/p/launch/a.launch'' ''p'' ''t'' ''n'' False],
           \<lparr>visited = {}, draws = 0\<rparr>)"
proof -
  let ?P = "\<lparr>files = (\<lambda>f. Missing), rospack = (\<lambda>p. p), environ = Map.empty, randint = (\<lambda>i. i)\<rparr>"
  let ?w = "\<lparr>visited = {}, draws = 0\<rparr>"
  let ?e1 = "Element ''node'' [(''if'', ''True''), (''unless'', ''FALSE'')] []"
  let ?e2 = "Element ''node'' [(''if'', ''maybe''), (''pkg'', ''p''), (''type'', ''t''), (''name'', ''n'')] []"
  let ?e3 = "Element ''node'' [(''if'', ''True''), (''pkg'', ''p''), (''type'', ''t''), (''name'', ''n'')] []"
  let ?self = "LaunchFile ''/p/launch/a.launch'' False [] [] [] []"
  have lT: "lower ''True'' = ''true''" and lF: "lower ''FALSE'' = ''false''"
    and lM: "lower ''maybe'' = ''maybe''"
    by (simp_all add: lower_def lower_char_def)
  have a1: "attr_resolves ?P [] ?e1 ''if'' ?w (Some ''True'') ?w"
    by (simp add: attr_resolves_def resolveText.simps match_here_def)
  have a2: "attr_resolves ?P [] ?e1 ''unless'' ?w (Some ''FALSE'') ?w"
    by (simp add: attr_resolves_def resolveText.simps match_here_def)
  have t: "unset_or truthy (Some ''True'')" by (simp add: unset_or_def truthy_def lT)
  have f: "unset_or falsy (Some ''FALSE'')" by (simp add: unset_or_def falsy_def lF)
  have m: "isEnabled ?P (getArgs ?self) ?e2 ?w =
             Some (Inl (Exception ''Invalid value in if attribute: maybe''), ?w)"
    by (simp add: isEnabled_def resolveText.simps match_here_def lM)
  have g: "tag ?e2 \<in> {''include'', ''group'', ''node'', ''test''}" by simp
  have r: "Inl (Exception ''Invalid value in if attribute: maybe'') \<noteq> (Inr True :: error + bool)" by simp
  have e: "isEnabled ?P (getArgs ?self) ?e3 ?w = Some (Inr True, ?w)"
    by (simp add: isEnabled_def isEnabled_unless_def resolveText.simps match_here_def lT)
  have n0: "tag ?e3 = ''node''" by simp
  have n1: "map_of (attrib ?e3) ''pkg'' = Some ''p''" by simp
  have n2: "map_of (attrib ?e3) ''type'' = Some ''t''" by simp
  have n3: "map_of (attrib ?e3) ''name'' = Some ''n''" by simp
  have r1: "resolveText ?P (getArgs ?self) ''p'' ?w = Some (Inr ''p'', ?w)"
    by (simp add: resolveText.simps match_here_def)
  have r2: "resolveText ?P (getArgs ?self) ''t'' ?w = Some (Inr ''t'', ?w)"
    by (simp add: resolveText.simps match_here_def)
  have r3: "resolveText ?P (getArgs ?self) ''n'' ?w = Some (Inr ''n'', ?w)"
    by (simp add: resolveText.simps match_here_def)
  note T1 = enable_predicate_gates_elements
    [of ?P "[]" ?e1 ?w "Some ''True''" ?w "Some ''FALSE''" ?w, THEN conjunct1]
  note T2 = enable_predicate_gates_elements
    [of ?P _ ?e2 ?w _ _ _ _ _ ?self "Inl (Exception ''Invalid value in if attribute: maybe'')" ?w 0,
     THEN conjunct2, THEN conjunct2, THEN conjunct1]
  note T3 = enable_predicate_gates_elements
    [of ?P _ ?e3 ?w _ ?w _ _ _ ?self _ _ _ _ "''p''" "''t''" "''n''" "''p''" ?w "''t''" ?w "''n''" ?w "Suc 0",
     THEN conjunct2, THEN conjunct2, THEN conjunct2, THEN conjunct1]
  from T1 a1 a2 t f have c1: "isEnabled ?P [] ?e1 ?w = Some (Inr True, ?w)" by blast
  from T2 m g r have c2: "parseLaunchElement ?P (Suc 0) ?e2 (?self, ?w) = Some (Inr (), ?self, ?w)"
    by blast
  from T3 n0 e n1 n2 n3 r1 r2 r3
  have c3: "parseLaunchElement ?P (Suc 0) ?e3 (?self, ?w) =
              Some (Inr (), appendNode (Node (getFilename ?self) ''p'' ''t'' ''n'' False) ?self, ?w)"
    by blast
  from c1 c2 c3 show ?thesis by (simp add: appendNode_def)
qed

text \<open>
  The claim as worded, for every element that carries the attribute, fails on
  an argument element: \<open>__parseArg\<close> never looks at \<open>if\<close> or \<open>unless\<close>.
  With \<open>if="maybe"\<close> on the argument no exception is raised and the argument is
  defined: the node after it is named by its value.
\<close>

theorem arg_element_is_not_gated:
  "LaunchFile_init
     \<lparr>files = (\<lambda>f. if f = ''/p/launch/a.launch''
                   then Document (Element ''launch'' []
                          [Element ''arg'' [(''name'', ''cam''), (''value'', ''front''), (''if'', ''maybe'')] [],
                           Element ''node'' [(''pkg'', ''p''), (''type'', ''t''), (''name'', ''$(arg cam)'')] []])
                   else Missing),
      rospack = (\<lambda>p. p), environ = Map.empty, randint = (\<lambda>i. i)\<rparr>
     (Suc 0) ''/p/launch/a.launch'' \<lparr>visited = {}, draws = 0\<rparr> =
   Some (Inr (LaunchFile ''/p/launch/a.launch'' False [(''cam'', ''front'')] [] []
                [Node ''/p/launch/a.launch'' ''p'' ''t'' ''front'' False]),
         \<lparr>visited = {''/p/launch/a.launch''}, draws = 0\<rparr>)"
  by (simp add: parseLaunchFile.simps parseLaunchElement.simps parseArg_def setArg_def
      parseNode_def parseNodeLike_def resolve3_def isEnabled_def isEnabled_unless_def
      getAttribute_def resolveText.simps match_here_def kwchar_def argchar_def appendNode_def
      substitutionArgFnMap_def onArgSubstitutionArg_def)

section \<open>Properties of the dot text\<close>

subsection \<open>Which lines declare a visual node\<close>

lemma filter_map_all: "(\<And>x. P (f x)) \<Longrightarrow> filter P (map f xs) = map f xs"
  by (induction xs) auto

lemma filter_map_none: "(\<And>x. \<not> P (f x)) \<Longrightarrow> filter P (map f xs) = []"
  by (induction xs) auto

lemma filter_concat_map_none: "(\<And>x. filter P (f x) = []) \<Longrightarrow> filter P (concat (map f xs)) = []"
  by (induction xs) auto

lemma launchDecl_prefix:
  \<open>prefix (''        "launch_'' @ getCleanName x @ ''" ['') (launchDecl x)\<close>
  by (simp add: launchDecl_def)

lemma nodeDecl_prefix:
  \<open>prefix (''        "node_'' @ name n @ ''" ['') (nodeDecl n)\<close>
  by (simp add: nodeDecl_def)

lemma launchDecl_is_decl: \<open>prefix ''        "'' (launchDecl x)\<close>
  by (simp add: launchDecl_def)

lemma nodeDecl_is_decl: \<open>prefix ''        "'' (nodeDecl n)\<close>
  by (simp add: nodeDecl_def)

lemma decls_of_subgraph:
  \<open>filter (prefix ''        "'') (createPackageSubgraph k p t) =
     map launchDecl (fst t) @ map nodeDecl (snd t)\<close>
  by (simp add: createPackageSubgraph_def filter_map_all launchDecl_is_decl nodeDecl_is_decl)

lemma decls_of_subgraphs:
  \<open>filter (prefix ''        "'') (subgraphs k items) =
     concat (map (\<lambda>item. map launchDecl (fst (snd item)) @ map nodeDecl (snd (snd item))) items)\<close>
  by (induction k items rule: subgraphs.induct) (simp_all add: decls_of_subgraph)

lemma decls_of_includeEdge: \<open>filter (prefix ''        "'') (includeEdge p i) = []\<close>
  by (simp add: includeEdge_def)

lemma decl_nodeEdge: \<open>\<not> prefix ''        "'' (nodeEdge n)\<close>
  by (simp add: nodeEdge_def)

lemma decls_of_dotLines:
  \<open>filter (prefix ''        "'') (dotLines k stamp command lf items) =
     concat (map (\<lambda>item. map launchDecl (fst (snd item)) @ map nodeDecl (snd (snd item))) items)\<close>
  by (simp add: dotLines_def decls_of_subgraphs filter_concat_map_none decls_of_includeEdge
      filter_map_none decl_nodeEdge)

subsection \<open>Which lines draw an edge\<close>

lemma edge_of_includeEdge:
  \<open>filter (prefix ''    "'') (includeEdge p i) =
     [''    "launch_'' @ getCleanName p @ ''" -> "launch_'' @ getCleanName i @
      ''" [penwidth=3, color='' @
      (if getFilename i \<in> set (getCycles p) then ''red'' else ''black'') @ ''];'']\<close>
  by (simp add: includeEdge_def getAttributeStr_def)

lemma edges_of_includes:
  \<open>filter (prefix ''    "'') (concat (map (includeEdge p) incs)) =
     map (\<lambda>i. ''    "launch_'' @ getCleanName p @ ''" -> "launch_'' @ getCleanName i @
      ''" [penwidth=3, color='' @
      (if getFilename i \<in> set (getCycles p) then ''red'' else ''black'') @ ''];'') incs\<close>
  by (induction incs) (simp_all add: edge_of_includeEdge)

lemma edges_of_parents:
  \<open>filter (prefix ''    "'')
      (concat (map (\<lambda>parent. concat (map (includeEdge parent) (getIncludes parent))) ps)) =
     concat (map (\<lambda>parent. map (\<lambda>i. ''    "launch_'' @ getCleanName parent @ ''" -> "launch_'' @ getCleanName i @
      ''" [penwidth=3, color='' @
      (if getFilename i \<in> set (getCycles parent) then ''red'' else ''black'') @ ''];'') (getIncludes parent)) ps)\<close>
  by (induction ps) (simp_all add: edges_of_includes)

lemma edges_of_items:
  \<open>filter (prefix ''    "'')
      (concat (map (\<lambda>item. concat (map (\<lambda>parent. concat (map (includeEdge parent) (getIncludes parent))) (fst (snd item)))) items)) =
     concat (map (\<lambda>item. concat (map (\<lambda>parent. map (\<lambda>i. ''    "launch_'' @ getCleanName parent @ ''" -> "launch_'' @ getCleanName i @
      ''" [penwidth=3, color='' @
      (if getFilename i \<in> set (getCycles parent) then ''red'' else ''black'') @ ''];'') (getIncludes parent)) (fst (snd item)))) items)\<close>
  by (induction items) (simp_all add: edges_of_parents)

lemma nodeEdge_is_edge: \<open>prefix ''    "'' (nodeEdge n)\<close>
  by (simp add: nodeEdge_def)

lemma edges_of_nodes:
  \<open>filter (prefix ''    "'') (concat (map (\<lambda>item. map nodeEdge (snd (snd item))) items)) =
     concat (map (\<lambda>item. map nodeEdge (snd (snd item))) items)\<close>
  by (induction items) (simp_all add: filter_map_all nodeEdge_is_edge)

lemma edges_of_subgraph: \<open>filter (prefix ''    "'') (createPackageSubgraph k p t) = []\<close>
  by (simp add: createPackageSubgraph_def filter_map_none launchDecl_def nodeDecl_def)

lemma edges_of_subgraphs: \<open>filter (prefix ''    "'') (subgraphs k items) = []\<close>
  by (induction k items rule: subgraphs.induct) (simp_all add: edges_of_subgraph)

lemma edges_of_dotLines:
  \<open>filter (prefix ''    "'') (dotLines k stamp command lf items) =
     concat (map (\<lambda>item. concat (map (\<lambda>parent. map (\<lambda>i. ''    "launch_'' @ getCleanName parent @ ''" -> "launch_'' @ getCleanName i @
      ''" [penwidth=3, color='' @
      (if getFilename i \<in> set (getCycles parent) then ''red'' else ''black'') @ ''];'') (getIncludes parent)) (fst (snd item)))) items) @
     concat (map (\<lambda>item. map nodeEdge (snd (snd item))) items)\<close>
  by (simp add: dotLines_def edges_of_subgraphs edges_of_items edges_of_nodes)

subsection \<open>Cluster lines and the time-stamp line\<close>

lemma toDot_cases:
  "(case getPackageMap r lf of
      Inl e \<Rightarrow> toDot r stamp argv lf = Inl e
    | Inr pm \<Rightarrow>
        toDot r stamp argv lf =
          Inr (join [CHR 0x0A] (dotLines (length pm) stamp (join '' '' argv) lf (iteritems r pm))))"
  by (simp add: toDot_def split: sum.splits)

lemma launch_not_node: "''launch_'' @ a \<noteq> ''node_'' @ b"
  by simp

lemma labels_of_subgraph:
  \<open>filter (prefix ''        label="'') (createPackageSubgraph k p t) = [''        label="'' @ p @ ''";'']\<close>
  by (simp add: createPackageSubgraph_def filter_map_none launchDecl_def nodeDecl_def)

lemma labels_of_subgraphs:
  \<open>filter (prefix ''        label="'') (subgraphs k items) =
     map (\<lambda>item. ''        label="'' @ fst item @ ''";'') items\<close>
  by (induction k items rule: subgraphs.induct) (simp_all add: labels_of_subgraph)

lemma labels_of_dotLines:
  \<open>filter (prefix ''        label="'') (dotLines k stamp command lf items) =
     map (\<lambda>item. ''        label="'' @ fst item @ ''";'') items\<close>
  by (simp add: dotLines_def labels_of_subgraphs filter_concat_map_none includeEdge_def
      filter_map_none nodeEdge_def)

lemma clusters_of_subgraph:
  \<open>filter (prefix ''    subgraph cluster_'') (createPackageSubgraph k p t) =
     [''    subgraph cluster_'' @ str_nat k @ '' {'']\<close>
  by (simp add: createPackageSubgraph_def filter_map_none launchDecl_def nodeDecl_def)

lemma clusters_of_subgraphs:
  \<open>filter (prefix ''    subgraph cluster_'') (subgraphs k items) =
     map (\<lambda>i. ''    subgraph cluster_'' @ str_nat i @ '' {'') [k..<k + length items]\<close>
proof (induction k items rule: subgraphs.induct)
  case (1 k) show ?case by simp
next
  case (2 k p t rest)
  have "[k..<k + length ((p, t) # rest)] = k # [Suc k..<Suc k + length rest]"
    by (simp add: upt_rec)
  with 2 show ?case by (simp add: clusters_of_subgraph)
qed

lemma clusters_of_dotLines:
  \<open>filter (prefix ''    subgraph cluster_'') (dotLines k stamp command lf items) =
     map (\<lambda>i. ''    subgraph cluster_'' @ str_nat i @ '' {'') [0..<length items]\<close>
  using clusters_of_subgraphs[of 0 items]
  by (simp add: dotLines_def filter_concat_map_none includeEdge_def filter_map_none nodeEdge_def)

lemma stamp_line:
  "dotLines k s2 c lf items =
     (dotLines k s1 c lf items)[2 := ''      * This dot file was automatically generated on '' @ s2]"
  by (simp add: dotLines_def numeral_2_eq_2)

subsection \<open>Identifiers of the visual nodes\<close>

text \<open>
  Claim C5 (amended). The lines of the dot text that declare a visual node (eight
  spaces, then a quoted identifier) are, package by package, one per launch file
  of the package and one per node of the package. The identifier of a launch
  file is \<open>launch_\<close> followed by its clean name, the identifier of a node is
  \<open>node_\<close> followed by its name, the edge to a node uses the same two
  identifiers, and an identifier of the first kind never equals one of the second.
  The lines that draw an edge (four spaces, then a quoted identifier) are, package
  by package, one per include of each launch file of the package, from
  \<open>launch_\<close> and the clean name of the including file to \<open>launch_\<close> and the
  clean name of the included file, red when the included file is among the
  cycles of the including file and black otherwise, and then one per node.
\<close>

theorem visual_node_identifiers:
  \<open>filter (prefix ''        "'') (dotLines k stamp command lf items) =
     concat (map (\<lambda>item. map launchDecl (fst (snd item)) @ map nodeDecl (snd (snd item))) items) \<and>
   prefix (''        "launch_'' @ getCleanName x @ ''" ['') (launchDecl x) \<and>
   prefix (''        "node_'' @ name n @ ''" ['') (nodeDecl n) \<and>
   nodeEdge n =
     ''    "launch_'' @ cleanName (launchFile n) @ ''" -> "node_'' @ name n @ ''" [penwidth=3];'' \<and>
   ''launch_'' @ a \<noteq> ''node_'' @ b \<and>
   filter (prefix ''    "'') (dotLines k stamp command lf items) =
     concat (map (\<lambda>item. concat (map (\<lambda>parent.
       map (\<lambda>i. ''    "launch_'' @ getCleanName parent @ ''" -> "launch_'' @ getCleanName i @
                 ''" [penwidth=3, color='' @
                 (if getFilename i \<in> set (getCycles parent) then ''red'' else ''black'') @ ''];'')
           (getIncludes parent)) (fst (snd item)))) items) @
     concat (map (\<lambda>item. map nodeEdge (snd (snd item))) items) \<and>
   filter (prefix ''    "'') (includeEdge parent included) =
     [''    "launch_'' @ getCleanName parent @ ''" -> "launch_'' @ getCleanName included @
      ''" [penwidth=3, color='' @
      (if getFilename included \<in> set (getCycles parent) then ''red'' else ''black'') @ ''];''] \<and>
   (case getPackageMap r lf of
      Inl e \<Rightarrow> toDot r stamp argv lf = Inl e
    | Inr pm \<Rightarrow>
        toDot r stamp argv lf =
          Inr (join [CHR 0x0A] (dotLines (length pm) stamp (join '' '' argv) lf (iteritems r pm))))\<close>
proof -
  have e: \<open>nodeEdge n =
     ''    "launch_'' @ cleanName (launchFile n) @ ''" -> "node_'' @ name n @ ''" [penwidth=3];''\<close>
    by (simp add: nodeEdge_def getAttributeStr_def)
  note d = decls_of_dotLines [of k stamp command lf items]
  note l = launchDecl_prefix [of x]
  note m = nodeDecl_prefix [of n]
  note u = launch_not_node [of a b]
  note g = edges_of_dotLines [of k stamp command lf items]
  note h = edge_of_includeEdge [of parent included]
  note c = toDot_cases [where r = r and lf = lf and stamp = stamp and argv = argv]
  from d l m e u g h c show ?thesis by (intro conjI)
qed

text \<open>
  The claim as worded, identifiers \<open>file_<cleanname>\<close>, fails on a tree of one
  launch file with one node: its two declaration lines are these.
\<close>

theorem launch_file_identifier_is_launch_not_file:
  \<open>getPackageMap \<lparr>dictOrder = (\<lambda>ks. ks), setOrder = (\<lambda>ks. ks)\<rparr>
     (LaunchFile ''/ws/p/launch/a.launch'' False [] [] []
        [Node ''/ws/p/launch/a.launch'' ''p'' ''t'' ''n'' False]) =
     Inr [(''p'',
           [LaunchFile ''/ws/p/launch/a.launch'' False [] [] []
              [Node ''/ws/p/launch/a.launch'' ''p'' ''t'' ''n'' False]],
           [Node ''/ws/p/launch/a.launch'' ''p'' ''t'' ''n'' False])] \<and>
   filter (prefix ''        "'')
     (dotLines 1 ''2026-01-01 10:00:00'' ''roslaunch-to-dot.py a.launch a.dot''
        (LaunchFile ''/ws/p/launch/a.launch'' False [] [] []
           [Node ''/ws/p/launch/a.launch'' ''p'' ''t'' ''n'' False])
        [(''p'',
           [LaunchFile ''/ws/p/launch/a.launch'' False [] [] []
              [Node ''/ws/p/launch/a.launch'' ''p'' ''t'' ''n'' False]],
           [Node ''/ws/p/launch/a.launch'' ''p'' ''t'' ''n'' False])]) =
     [''        "launch_a" [label="a.launch", shape=rectangle, style=filled, fillcolor="#d3d3d3"];'',
      ''        "node_n" [label="n" shape=rectangle, style=filled, fillcolor="#6495ed"];'']\<close>
proof -
  have c: "cleanName ''/ws/p/launch/a.launch'' = ''a''"
    by (simp add: cleanName_def basename_def splitext_root_def rfind_def)
  have b: "basename ''/ws/p/launch/a.launch'' = ''a.launch''"
    by (simp add: basename_def)
  have s: "split ''/ws/p/launch/a.launch'' ''/launch/'' = [''/ws/p'', ''a.launch'']"
    by simp
  have p: "basename ''/ws/p'' = ''p''" by (simp add: basename_def)
  have g: "getPackageMap \<lparr>dictOrder = (\<lambda>ks. ks), setOrder = (\<lambda>ks. ks)\<rparr>
     (LaunchFile ''/ws/p/launch/a.launch'' False [] [] []
        [Node ''/ws/p/launch/a.launch'' ''p'' ''t'' ''n'' False]) =
     Inr [(''p'',
           [LaunchFile ''/ws/p/launch/a.launch'' False [] [] []
              [Node ''/ws/p/launch/a.launch'' ''p'' ''t'' ''n'' False]],
           [Node ''/ws/p/launch/a.launch'' ''p'' ''t'' ''n'' False])]"
    by (simp add: getPackageMap_def getPackageName_def s p dictAppend_def dictGet_def
        packageNodeMap_def iteritems_def List.map_filter_def)
  show ?thesis
    by (simp add: g decls_of_dotLines launchDecl_def nodeDecl_def getCleanName_def c b
        getAttributeStr_def)
qed

subsection \<open>What the dot text depends on\<close>

lemma stamp_in_text:
  "\<exists>H R. \<forall>s. join [CHR 0x0A] (dotLines k s c lf items) = H @ s @ R"
proof (intro exI allI)
  fix s
  show "join [CHR 0x0A] (dotLines k s c lf items) =
          (''digraph '' @ getCleanName lf @ ''_launch_graph {'' @ [CHR 0x0A] @ ''    /**'' @ [CHR 0x0A] @
           ''      * This dot file was automatically generated on '') @ s @
          ([CHR 0x0A] @ join [CHR 0x0A] (tl (tl (tl (dotLines k [] c lf items)))))"
    by (simp add: dotLines_def)
qed

lemma texts_differ:
  assumes "s1 \<noteq> s2"
  shows "join [CHR 0x0A] (dotLines k s1 c lf items) \<noteq> join [CHR 0x0A] (dotLines k s2 c lf items)"
proof -
  obtain H R where "\<forall>s. join [CHR 0x0A] (dotLines k s c lf items) = H @ s @ R"
    using stamp_in_text by blast
  with assms show ?thesis by simp
qed

text \<open>
  Claim C4 (amended). The dot text is a function of the resolved tree, the time
  stamp of the call, the command line and the order in which the runtime
  iterates the package dictionary. Two emissions over one tree differ in line 3,
  which holds the time stamp, and in no other line. The clusters are numbered from
  0 and labelled with the packages in the iteration order of the package
  dictionary; nothing sorts them. When a path holds no \<open>/launch/\<close> segment
  the emission fails, whatever the time stamp.
\<close>

theorem emission_depends_on_stamp_and_dictionary_order:
  \<open>dotLines k s2 c lf items =
     (dotLines k s1 c lf items)[2 := ''      * This dot file was automatically generated on '' @ s2] \<and>
   filter (prefix ''        label="'') (dotLines k s1 c lf items) =
     map (\<lambda>item. ''        label="'' @ fst item @ ''";'') items \<and>
   filter (prefix ''    subgraph cluster_'') (dotLines k s1 c lf items) =
     map (\<lambda>i. ''    subgraph cluster_'' @ str_nat i @ '' {'') [0..<length items] \<and>
   (case getPackageMap r lf of
      Inl e \<Rightarrow> toDot r s1 argv lf = Inl e
    | Inr pm \<Rightarrow>
        toDot r s1 argv lf =
          Inr (join [CHR 0x0A] (dotLines (length pm) s1 (join '' '' argv) lf (iteritems r pm))))\<close>
  using stamp_line [of k s2 c lf items s1] labels_of_dotLines [of k s1 c lf items]
    clusters_of_dotLines [of k s1 c lf items]
    toDot_cases [where r = r and lf = lf and stamp = s1 and argv = argv]
  by simp

text \<open>
  The claim as worded fails twice on a launch file of package \<open>b\<close> that includes
  a file of package \<open>a\<close>: emissions seven seconds apart differ, and with a
  dictionary that iterates in insertion order the cluster of \<open>b\<close> comes first.
\<close>

theorem emission_differs_with_time_and_is_not_sorted:
  \<open>toDot \<lparr>dictOrder = (\<lambda>ks. ks), setOrder = (\<lambda>ks. ks)\<rparr> ''2026-01-01 10:00:00.000001''
     [''roslaunch-to-dot.py'', ''r.launch'', ''r.dot'']
     (LaunchFile ''/ws/b/launch/r.launch'' False []
        [LaunchFile ''/ws/a/launch/x.launch'' True [] [] [] []] [] []) \<noteq>
   toDot \<lparr>dictOrder = (\<lambda>ks. ks), setOrder = (\<lambda>ks. ks)\<rparr> ''2026-01-01 10:00:07.000001''
     [''roslaunch-to-dot.py'', ''r.launch'', ''r.dot'']
     (LaunchFile ''/ws/b/launch/r.launch'' False []
        [LaunchFile ''/ws/a/launch/x.launch'' True [] [] [] []] [] []) \<and>
   getPackageMap \<lparr>dictOrder = (\<lambda>ks. ks), setOrder = (\<lambda>ks. ks)\<rparr>
     (LaunchFile ''/ws/b/launch/r.launch'' False []
        [LaunchFile ''/ws/a/launch/x.launch'' True [] [] [] []] [] []) =
     Inr [(''b'', [LaunchFile ''/ws/b/launch/r.launch'' False []
                    [LaunchFile ''/ws/a/launch/x.launch'' True [] [] [] []] [] []], []),
          (''a'', [LaunchFile ''/ws/a/launch/x.launch'' True [] [] [] []], [])] \<and>
   filter (prefix ''        label="'')
     (dotLines 2 ''2026-01-01 10:00:00.000001'' ''roslaunch-to-dot.py r.launch r.dot''
        (LaunchFile ''/ws/b/launch/r.launch'' False []
           [LaunchFile ''/ws/a/launch/x.launch'' True [] [] [] []] [] [])
        [(''b'', [LaunchFile ''/ws/b/launch/r.launch'' False []
                    [LaunchFile ''/ws/a/launch/x.launch'' True [] [] [] []] [] []], []),
         (''a'', [LaunchFile ''/ws/a/launch/x.launch'' True [] [] [] []], [])]) =
     [''        label="b";'', ''        label="a";'']\<close>
proof -
  let ?r = "\<lparr>dictOrder = (\<lambda>ks. ks), setOrder = (\<lambda>ks. ks)\<rparr>"
  let ?x = "LaunchFile ''/ws/a/launch/x.launch'' True [] [] [] []"
  let ?T = "LaunchFile ''/ws/b/launch/r.launch'' False [] [?x] [] []"
  let ?items = "[(''b'', [?T], []), (''a'', [?x], [])]"
  have s1: "split ''/ws/b/launch/r.launch'' ''/launch/'' = [''/ws/b'', ''r.launch'']" by simp
  have s2: "split ''/ws/a/launch/x.launch'' ''/launch/'' = [''/ws/a'', ''x.launch'']" by simp
  have p: "basename ''/ws/b'' = ''b''" "basename ''/ws/a'' = ''a''" by (simp_all add: basename_def)
  have g: "getPackageMap ?r ?T = Inr ?items"
    by (simp add: getPackageMap_def getPackageName_def s1 s2 p dictAppend_def dictGet_def
        packageNodeMap_def iteritems_def List.map_filter_def)
  have it: "iteritems ?r ?items = ?items"
    by (simp add: iteritems_def List.map_filter_def)
  have neq: "''2026-01-01 10:00:00.000001'' \<noteq> ''2026-01-01 10:00:07.000001''" by simp
  have t: "toDot ?r s argv ?T = Inr (join [CHR 0x0A] (dotLines 2 s (join '' '' argv) ?T ?items))"
    for s argv by (simp add: toDot_def g it numeral_2_eq_2)
  have l: "filter (prefix ''        label=\"'') (dotLines k s c ?T ?items) =
             [''        label=\"b\";'', ''        label=\"a\";'']" for k s c
    by (simp add: labels_of_dotLines)
  show ?thesis
    using texts_differ [OF neq] by (simp add: t g l)
qed

end
